theory Spec2Isabelle
  imports Main "HOL-Library.Word"
begin

section \<open>httpfuzz: body cloning and the plugin broker\<close>

text \<open>
  The Go package \<^verbatim>\<open>httpfuzz\<close> wraps \<^verbatim>\<open>*http.Request\<close> and \<^verbatim>\<open>*http.Response\<close> with a
  \<^verbatim>\<open>CloneBody\<close> method (http.go) and fans every \<^verbatim>\<open>*Result\<close> out to the loaded plugins
  (the plugin broker). The code works on pointers throughout: a Result is shared by
  pointer, header maps are reference values, bodies are stateful readers. The model
  therefore keeps an explicit store with one typed heap per kind of object. A heap is a
  list, an address is an index into it, and allocation appends, so the address
  \<open>length h\<close> is always fresh.
\<close>

subsection \<open>Outcomes, pointers, heaps\<close>

text \<open>
  \<open>Error msg\<close> is a non-nil Go \<^verbatim>\<open>error\<close> that a function returns; \<open>Panic msg\<close> is a
  run-time panic (the call does not return); \<open>Blocked\<close> is a call that does not return
  because the goroutine is parked (a send on a nil channel, a \<^verbatim>\<open>Wait\<close> on a positive
  counter).
\<close>

datatype error = Error string | Panic string | Blocked

text \<open>A pointer is \<open>None\<close> (nil) or the address of a cell.\<close>

type_synonym ptr = "nat option"

type_synonym byte = "8 word"

definition deref :: "'a list \<Rightarrow> ptr \<Rightarrow> 'a option" where
  "deref h p = (case p of None \<Rightarrow> None
                | Some a \<Rightarrow> if a < length h then Some (h ! a) else None)"

definition upd :: "'a list \<Rightarrow> ptr \<Rightarrow> ('a \<Rightarrow> 'a) \<Rightarrow> 'a list" where
  "upd h p f = (case p of None \<Rightarrow> h
                | Some a \<Rightarrow> if a < length h then h[a := f (h ! a)] else h)"

subsection \<open>The data model\<close>

text \<open>
  A body is an \<^verbatim>\<open>io.ReadCloser\<close>: a reader with the bytes it has still to yield and,
  possibly, the error it reports once they are consumed (instead of \<^verbatim>\<open>io.EOF\<close>).
\<close>

record reader =
  pending :: "byte list"
  failure :: "string option"

text \<open>\<^verbatim>\<open>http.Header\<close> is a Go map; the store holds the map object, a field holds its address.\<close>

type_synonym header = "string \<rightharpoonup> string list"

type_synonym "context" = nat

text \<open>The fields of \<^verbatim>\<open>http.Request\<close> that \<^verbatim>\<open>Clone\<close> and \<^verbatim>\<open>CloneBody\<close> act on.\<close>

record http_Request =
  req_Method :: string
  req_URL :: string
  req_Proto :: string
  req_ProtoMajor :: int
  req_ProtoMinor :: int
  req_Header :: ptr
  req_Body :: ptr
  req_ContentLength :: "64 word"
  req_TransferEncoding :: "string list"
  req_Close :: bool
  req_Host :: string
  req_Trailer :: ptr
  req_ctx :: "context option"

text \<open>The fields of \<^verbatim>\<open>http.Response\<close>; \<open>resp_Request\<close> and \<open>resp_TLS\<close> are pointers.\<close>

record http_Response =
  resp_Status :: string
  resp_StatusCode :: int
  resp_Proto :: string
  resp_ProtoMajor :: int
  resp_ProtoMinor :: int
  resp_Header :: ptr
  resp_Body :: ptr
  resp_ContentLength :: "64 word"
  resp_TransferEncoding :: "string list"
  resp_Close :: bool
  resp_Uncompressed :: bool
  resp_Trailer :: ptr
  resp_Request :: ptr
  resp_TLS :: ptr

text \<open>\<^verbatim>\<open>new(http.Response)\<close>: every field has its zero value.\<close>

definition zero_Response :: http_Response where
  "zero_Response = \<lparr>resp_Status = [], resp_StatusCode = 0, resp_Proto = [],
     resp_ProtoMajor = 0, resp_ProtoMinor = 0, resp_Header = None, resp_Body = None,
     resp_ContentLength = 0, resp_TransferEncoding = [], resp_Close = False,
     resp_Uncompressed = False, resp_Trailer = None, resp_Request = None,
     resp_TLS = None\<rparr>"

text \<open>\<^verbatim>\<open>type Result struct\<close>: two pointers to the wrappers and the fuzz metadata.\<close>

record Result =
  Request :: ptr
  Response :: ptr
  Payload :: string
  Location :: string
  FieldName :: string
  TimeElapsed :: "64 word"

text \<open>
  An unbuffered channel of \<^verbatim>\<open>*Result\<close>: the values handed over to the receiver so far,
  in order, and whether the channel is closed. A send is recorded as accepted: the
  model is sequential and takes the worker on the other end to be receiving.
\<close>

record chan =
  received :: "ptr list"
  closed :: bool

type_synonym listener = nat
type_synonym logger = nat

text \<open>\<^verbatim>\<open>type pluginInfo struct\<close>; it is never written after its construction.\<close>

record pluginInfo =
  Input :: ptr
  Listener :: listener

text \<open>\<^verbatim>\<open>type PluginBroker struct\<close>; \<open>waitGroup\<close> is the counter of the \<^verbatim>\<open>sync.WaitGroup\<close>.\<close>

record PluginBroker =
  plugins :: "pluginInfo list"
  waitGroup :: int

text \<open>
  The store. \<open>Requests\<close> and \<open>Responses\<close> hold the wrapper structs
  \<^verbatim>\<open>Request{*http.Request}\<close> and \<^verbatim>\<open>Response{*http.Response}\<close>: a cell is the embedded
  pointer. \<open>goroutines\<close> lists the workers started by \<^verbatim>\<open>run\<close>: the listener and the
  channel it listens on.
\<close>

record store =
  readers :: "reader list"
  headers :: "header list"
  http_Requests :: "http_Request list"
  http_Responses :: "http_Response list"
  Requests :: "ptr list"
  Responses :: "ptr list"
  Results :: "Result list"
  chans :: "chan list"
  goroutines :: "(listener \<times> ptr) list"

subsection \<open>Library operations used by the code\<close>

text \<open>
  \<^verbatim>\<open>ioutil.ReadAll\<close> reads until EOF or an error. The reader is left drained. On a nil
  reader the call panics.
\<close>

definition ioutil_ReadAll :: "store \<Rightarrow> ptr \<Rightarrow> (error + byte list) \<times> store" where
  "ioutil_ReadAll s b =
     (case deref (readers s) b of
        None \<Rightarrow> (Inl (Panic ''nil pointer dereference''), s)
      | Some rd \<Rightarrow>
          (let s' = s\<lparr>readers := upd (readers s) b (\<lambda>r. r\<lparr>pending := []\<rparr>)\<rparr>
           in case failure rd of
                None \<Rightarrow> (Inr (pending rd), s')
              | Some msg \<Rightarrow> (Inl (Error msg), s')))"

text \<open>\<^verbatim>\<open>ioutil.NopCloser(bytes.NewReader(body))\<close>: a fresh reader over \<open>body\<close> that cannot fail.\<close>

definition NewReader :: "store \<Rightarrow> byte list \<Rightarrow> ptr \<times> store" where
  "NewReader s body =
     (Some (length (readers s)),
      s\<lparr>readers := readers s @ [\<lparr>pending = body, failure = None\<rparr>]\<rparr>)"

text \<open>\<^verbatim>\<open>Header.Clone\<close>: nil for a nil header, else a new map with the same entries.\<close>

definition Header_Clone :: "store \<Rightarrow> ptr \<Rightarrow> ptr \<times> store" where
  "Header_Clone s h =
     (case deref (headers s) h of
        None \<Rightarrow> (None, s)
      | Some m \<Rightarrow> (Some (length (headers s)), s\<lparr>headers := headers s @ [m]\<rparr>))"

text \<open>
  \<^verbatim>\<open>(*http.Request).Clone(ctx)\<close>: panics on a nil context; the new request is a copy of
  the old one with the context replaced, header and trailer maps cloned, and the Body
  field copied as it is (both requests then share one reader).
\<close>

definition http_Request_Clone :: "store \<Rightarrow> ptr \<Rightarrow> context option \<Rightarrow> (error + ptr) \<times> store" where
  "http_Request_Clone s r c =
     (case c of
        None \<Rightarrow> (Inl (Panic ''nil context''), s)
      | Some _ \<Rightarrow>
          (case deref (http_Requests s) r of
             None \<Rightarrow> (Inl (Panic ''nil pointer dereference''), s)
           | Some h \<Rightarrow>
               (let (hp, s1) = Header_Clone s (req_Header h);
                    (tp, s2) = Header_Clone s1 (req_Trailer h);
                    r2 = h\<lparr>req_ctx := c, req_Header := hp, req_Trailer := tp\<rparr>
                in (Inr (Some (length (http_Requests s2))),
                    s2\<lparr>http_Requests := http_Requests s2 @ [r2]\<rparr>))))"

definition context_Background :: "context option" where
  "context_Background = Some 0"

text \<open>The built-in \<^verbatim>\<open>copy(dst, src)\<close> overwrites the first min(len dst, len src) elements of dst.\<close>

definition copy :: "'a list \<Rightarrow> 'a list \<Rightarrow> 'a list" where
  "copy dst src = take (min (length dst) (length src)) src
                  @ drop (min (length dst) (length src)) dst"

text \<open>
  A send \<^verbatim>\<open>c <- v\<close>: blocks for ever on a nil channel, panics on a closed one, and is
  otherwise handed to the receiver.
\<close>

definition chan_send :: "store \<Rightarrow> ptr \<Rightarrow> ptr \<Rightarrow> (error + unit) \<times> store" where
  "chan_send s c v =
     (case c of
        None \<Rightarrow> (Inl Blocked, s)
      | Some a \<Rightarrow>
          (case deref (chans s) c of
             None \<Rightarrow> (Inl (Panic ''nil pointer dereference''), s)
           | Some ch \<Rightarrow>
               if closed ch then (Inl (Panic ''send on closed channel''), s)
               else (Inr (), s\<lparr>chans := upd (chans s) c
                                  (\<lambda>ch. ch\<lparr>received := received ch @ [v]\<rparr>)\<rparr>)))"

text \<open>\<^verbatim>\<open>close(c)\<close>: panics on a nil channel and on a closed one.\<close>

definition chan_close :: "store \<Rightarrow> ptr \<Rightarrow> (error + unit) \<times> store" where
  "chan_close s c =
     (case deref (chans s) c of
        None \<Rightarrow> (Inl (Panic ''close of nil channel''), s)
      | Some ch \<Rightarrow>
          if closed ch then (Inl (Panic ''close of closed channel''), s)
          else (Inr (), s\<lparr>chans := upd (chans s) c (\<lambda>ch. ch\<lparr>closed := True\<rparr>)\<rparr>))"

text \<open>\<^verbatim>\<open>make(chan *Result)\<close>.\<close>

definition make_chan :: "store \<Rightarrow> ptr \<times> store" where
  "make_chan s = (Some (length (chans s)),
                  s\<lparr>chans := chans s @ [\<lparr>received = [], closed = False\<rparr>]\<rparr>)"

subsection \<open>http.go\<close>

text \<open>
  \<^verbatim>\<open>func (r *Request) CloneBody(ctx context.Context) (*Request, error)\<close>.
  The clone shares the body reader of the original (\<^verbatim>\<open>Clone\<close> copies the field), so
  \<^verbatim>\<open>ReadAll(req.Body)\<close> drains the original's reader; then both get a fresh reader.
\<close>

definition Request_CloneBody :: "store \<Rightarrow> ptr \<Rightarrow> context option \<Rightarrow> (error + ptr) \<times> store" where
  "Request_CloneBody s r c =
     (case deref (Requests s) r of
        None \<Rightarrow> (Inl (Panic ''nil pointer dereference''), s)
      | Some hr \<Rightarrow>
          (case http_Request_Clone s hr c of
             (Inl e, s1) \<Rightarrow> (Inl e, s1)
           | (Inr hq, s1) \<Rightarrow>
               (let req = Some (length (Requests s1));
                    s2 = s1\<lparr>Requests := Requests s1 @ [hq]\<rparr>
                in case deref (http_Requests s2) hq of
                     None \<Rightarrow> (Inl (Panic ''nil pointer dereference''), s2)
                   | Some q \<Rightarrow>
                       if req_Body q = None then (Inr req, s2)
                       else
                         (case ioutil_ReadAll s2 (req_Body q) of
                            (Inl err, s3) \<Rightarrow> (Inl err, s3)
                          | (Inr body, s3) \<Rightarrow>
                              (let (b1, s4) = NewReader s3 body;
                                   s5 = s4\<lparr>http_Requests := upd (http_Requests s4) hr
                                                             (\<lambda>h. h\<lparr>req_Body := b1\<rparr>)\<rparr>;
                                   (b2, s6) = NewReader s5 body;
                                   s7 = s6\<lparr>http_Requests := upd (http_Requests s6) hq
                                                             (\<lambda>h. h\<lparr>req_Body := b2\<rparr>)\<rparr>
                               in (Inr req, s7))))))"

text \<open>
  \<^verbatim>\<open>func (r *Response) CloneBody() (*Response, error)\<close>. There is no nil check on the
  body. The fields copied after the body are read from the original as it was on
  entry: between entry and those reads the code writes only the original's Body.
  The last statement is \<^verbatim>\<open>copy(newResponse.TransferEncoding, r.Response.TransferEncoding)\<close>,
  whose destination is the new response's own (nil) slice.
\<close>

definition Response_CloneBody :: "store \<Rightarrow> ptr \<Rightarrow> (error + ptr) \<times> store" where
  "Response_CloneBody s r =
     (let newResponse = Some (length (http_Responses s));
          s1 = s\<lparr>http_Responses := http_Responses s @ [zero_Response]\<rparr>
      in case deref (Responses s1) r of
           None \<Rightarrow> (Inl (Panic ''nil pointer dereference''), s1)
         | Some hr \<Rightarrow>
             (case deref (http_Responses s1) hr of
                None \<Rightarrow> (Inl (Panic ''nil pointer dereference''), s1)
              | Some orig \<Rightarrow>
                  (let (hp, s2) = Header_Clone s1 (resp_Header orig);
                       s3 = s2\<lparr>http_Responses := upd (http_Responses s2) newResponse
                                                  (\<lambda>n. n\<lparr>resp_Header := hp\<rparr>)\<rparr>
                   in case ioutil_ReadAll s3 (resp_Body orig) of
                        (Inl err, s4) \<Rightarrow> (Inl err, s4)
                      | (Inr body, s4) \<Rightarrow>
                          (let (b1, s5) = NewReader s4 body;
                               s6 = s5\<lparr>http_Responses := upd (http_Responses s5) hr
                                                          (\<lambda>h. h\<lparr>resp_Body := b1\<rparr>)\<rparr>;
                               (b2, s7) = NewReader s6 body;
                               (tp, s8) = Header_Clone s7 (resp_Trailer orig);
                               s9 = s8\<lparr>http_Responses := upd (http_Responses s8) newResponse
                                 (\<lambda>n. n\<lparr>resp_Body := b2,
                                        resp_Trailer := tp,
                                        resp_ContentLength := resp_ContentLength orig,
                                        resp_Uncompressed := resp_Uncompressed orig,
                                        resp_Request := resp_Request orig,
                                        resp_TLS := resp_TLS orig,
                                        resp_Status := resp_Status orig,
                                        resp_StatusCode := resp_StatusCode orig,
                                        resp_Proto := resp_Proto orig,
                                        resp_ProtoMajor := resp_ProtoMajor orig,
                                        resp_ProtoMinor := resp_ProtoMinor orig,
                                        resp_Close := resp_Close orig,
                                        resp_TransferEncoding :=
                                          copy (resp_TransferEncoding n)
                                               (resp_TransferEncoding orig)\<rparr>)\<rparr>
                           in (Inr (Some (length (Responses s9))),
                               s9\<lparr>Responses := Responses s9 @ [newResponse]\<rparr>)))))"

subsection \<open>The plugin broker\<close>

text \<open>
  \<^verbatim>\<open>func (p *PluginBroker) SendResult(result *Result) error\<close>: the loop over \<^verbatim>\<open>p.plugins\<close>.
  Each iteration clones the request and the response that \<open>result\<close> refers to at that
  moment, stores the clones in \<open>result\<close>, and sends the pointer \<open>result\<close> itself.
\<close>

fun SendResult_loop :: "store \<Rightarrow> ptr \<Rightarrow> pluginInfo list \<Rightarrow> (error + unit) \<times> store" where
  "SendResult_loop s result [] = (Inr (), s)"
| "SendResult_loop s result (plugin # rest) =
     (case deref (Results s) result of
        None \<Rightarrow> (Inl (Panic ''nil pointer dereference''), s)
      | Some res \<Rightarrow>
          (case Request_CloneBody s (Request res) context_Background of
             (Inl err, s1) \<Rightarrow> (Inl err, s1)
           | (Inr req, s1) \<Rightarrow>
               (case Response_CloneBody s1 (Response res) of
                  (Inl err, s2) \<Rightarrow> (Inl err, s2)
                | (Inr resp, s2) \<Rightarrow>
                    (let s3 = s2\<lparr>Results := upd (Results s2) result
                                   (\<lambda>r. r\<lparr>Request := req, Response := resp\<rparr>)\<rparr>
                     in case chan_send s3 (Input plugin) result of
                          (Inl err, s4) \<Rightarrow> (Inl err, s4)
                        | (Inr _, s4) \<Rightarrow> SendResult_loop s4 result rest))))"

definition SendResult :: "store \<Rightarrow> PluginBroker \<Rightarrow> ptr \<Rightarrow> (error + unit) \<times> store" where
  "SendResult s p result = SendResult_loop s result (plugins p)"

text \<open>\<^verbatim>\<open>run\<close> starts the worker goroutine of a plugin on its channel.\<close>

definition run :: "store \<Rightarrow> pluginInfo \<Rightarrow> ptr \<Rightarrow> store" where
  "run s plugin results = s\<lparr>goroutines := goroutines s @ [(Listener plugin, results)]\<rparr>"

text \<open>\<^verbatim>\<open>Wait\<close> returns once the counter of the wait group is zero.\<close>

definition Wait :: "PluginBroker \<Rightarrow> error + unit" where
  "Wait p = (if waitGroup p = 0 then Inr () else Inl Blocked)"

definition add :: "PluginBroker \<Rightarrow> pluginInfo \<Rightarrow> PluginBroker" where
  "add p plugin = p\<lparr>plugins := plugins p @ [plugin], waitGroup := waitGroup p + 1\<rparr>"

fun SignalDone_loop :: "store \<Rightarrow> pluginInfo list \<Rightarrow> (error + unit) \<times> store" where
  "SignalDone_loop s [] = (Inr (), s)"
| "SignalDone_loop s (plugin # rest) =
     (case chan_close s (Input plugin) of
        (Inl err, s1) \<Rightarrow> (Inl err, s1)
      | (Inr _, s1) \<Rightarrow> SignalDone_loop s1 rest)"

definition SignalDone :: "store \<Rightarrow> PluginBroker \<Rightarrow> (error + unit) \<times> store" where
  "SignalDone s p = SignalDone_loop s (plugins p)"

text \<open>
  The Go \<^verbatim>\<open>plugin\<close> package is the environment of \<^verbatim>\<open>LoadPlugins\<close>: \<open>plugin_Open\<close> maps a
  path to an error message or to the symbol table of the module, and a symbol is
  either a function of the type of \<^verbatim>\<open>InitializerFunc\<close> or something else (on which the
  type assertion panics).
\<close>

datatype symbol = Initializer "logger \<Rightarrow> string + listener" | OtherSymbol

type_synonym plugin_env = "string \<Rightarrow> string + (string \<rightharpoonup> symbol)"

definition Lookup :: "(string \<rightharpoonup> symbol) \<Rightarrow> string \<Rightarrow> string + symbol" where
  "Lookup plg name = (case plg name of
                        None \<Rightarrow> Inl (''plugin: symbol '' @ name @ '' not found'')
                      | Some symb \<Rightarrow> Inr symb)"

fun LoadPlugins_loop ::
  "plugin_env \<Rightarrow> store \<Rightarrow> PluginBroker \<Rightarrow> logger \<Rightarrow> string list \<Rightarrow> (error + PluginBroker) \<times> store"
where
  "LoadPlugins_loop env s broker lg [] = (Inr broker, s)"
| "LoadPlugins_loop env s broker lg (path # rest) =
     (case env path of
        Inl err \<Rightarrow> (Inl (Error err), s)
      | Inr plg \<Rightarrow>
          (case Lookup plg ''New'' of
             Inl err \<Rightarrow> (Inl (Error err), s)
           | Inr symb \<Rightarrow>
               (case symb of
                  OtherSymbol \<Rightarrow> (Inl (Panic ''interface conversion''), s)
                | Initializer initializer \<Rightarrow>
                    (case initializer lg of
                       Inl err \<Rightarrow> (Inl (Error err), s)
                     | Inr httpfuzzListener \<Rightarrow>
                         (let (input, s1) = make_chan s;
                              httpfuzzPlugin = \<lparr>Input = input, Listener = httpfuzzListener\<rparr>;
                              broker1 = add broker httpfuzzPlugin;
                              s2 = run s1 httpfuzzPlugin input
                          in LoadPlugins_loop env s2 broker1 lg rest)))))"

text \<open>\<^verbatim>\<open>LoadPlugins\<close> starts from \<^verbatim>\<open>&PluginBroker{}\<close>.\<close>

definition LoadPlugins :: "plugin_env \<Rightarrow> store \<Rightarrow> logger \<Rightarrow> string list \<Rightarrow> (error + PluginBroker) \<times> store" where
  "LoadPlugins env s lg paths =
     LoadPlugins_loop env s \<lparr>plugins = [], waitGroup = 0\<rparr> lg paths"


subsection \<open>Observations on a store\<close>

text \<open>A reader that yields \<open>bs\<close> and then EOF.\<close>

definition readable :: "byte list \<Rightarrow> reader" where
  "readable bs = \<lparr>pending = bs, failure = None\<rparr>"

text \<open>The body reader reached from a wrapper: \<^verbatim>\<open>r.Request.Body\<close> and \<^verbatim>\<open>r.Response.Body\<close>.\<close>

definition Request_body :: "store \<Rightarrow> ptr \<Rightarrow> reader option" where
  "Request_body s r =
     (case deref (Requests s) r of
        None \<Rightarrow> None
      | Some hr \<Rightarrow>
          (case deref (http_Requests s) hr of
             None \<Rightarrow> None
           | Some h \<Rightarrow> deref (readers s) (req_Body h)))"


text \<open>What the worker of a plugin has been handed on its channel.\<close>

definition delivered :: "store \<Rightarrow> pluginInfo \<Rightarrow> ptr list" where
  "delivered s plugin = (case deref (chans s) (Input plugin) of
                           None \<Rightarrow> []
                         | Some ch \<Rightarrow> received ch)"

text \<open>The metadata fields of a Result.\<close>

definition metadata :: "Result \<Rightarrow> string \<times> string \<times> string \<times> 64 word" where
  "metadata res = (Payload res, Location res, FieldName res, TimeElapsed res)"

text \<open>
  The header map that a holder of a \<^verbatim>\<open>*Result\<close> reaches as \<^verbatim>\<open>result.Request.Header\<close>,
  and \<^verbatim>\<open>result.Request.Header.Set(k, v)\<close> done through such a pointer.
\<close>

definition Result_Request_Header :: "store \<Rightarrow> ptr \<Rightarrow> ptr" where
  "Result_Request_Header s result =
     (case deref (Results s) result of
        None \<Rightarrow> None
      | Some res \<Rightarrow>
          (case deref (Requests s) (Request res) of
             None \<Rightarrow> None
           | Some hr \<Rightarrow>
               (case deref (http_Requests s) hr of
                  None \<Rightarrow> None
                | Some h \<Rightarrow> req_Header h)))"

definition Header_Get :: "store \<Rightarrow> ptr \<Rightarrow> string \<Rightarrow> string list option" where
  "Header_Get s h k = (case deref (headers s) h of None \<Rightarrow> None | Some m \<Rightarrow> m k)"

definition Header_Set :: "store \<Rightarrow> ptr \<Rightarrow> string \<Rightarrow> string \<Rightarrow> store" where
  "Header_Set s h k v = s\<lparr>headers := upd (headers s) h (\<lambda>m. m(k \<mapsto> [v]))\<rparr>"

subsection \<open>Repeated calls\<close>



text \<open>
  A producer calling \<^verbatim>\<open>SendResult\<close> for one Result after the other, whatever each call
  returns; the store after the last call.
\<close>

fun SendResult_all :: "store \<Rightarrow> PluginBroker \<Rightarrow> ptr list \<Rightarrow> store" where
  "SendResult_all s p [] = s"
| "SendResult_all s p (result # results) =
     SendResult_all (snd (SendResult s p result)) p results"

subsection \<open>The workers of the plugins\<close>

text \<open>
  \<^verbatim>\<open>plugin.Input <- result\<close> hands the pointer to the worker goroutine of the plugin,
  which runs \<^verbatim>\<open>Listen\<close>, code of the plugin, while the loop goes on. What a worker does
  to the store with the pointer it is handed is the parameter \<open>listen\<close>, by listener
  and pointer; it takes effect once the send is accepted, before the next iteration.
  Each iteration is the iteration of \<open>SendResult_loop\<close>.
\<close>

fun SendResult_loop_with ::
  "(listener \<Rightarrow> ptr \<Rightarrow> store \<Rightarrow> store) \<Rightarrow> store \<Rightarrow> ptr \<Rightarrow> pluginInfo list
     \<Rightarrow> (error + unit) \<times> store" where
  "SendResult_loop_with listen s result [] = (Inr (), s)"
| "SendResult_loop_with listen s result (plugin # rest) =
     (case SendResult_loop s result [plugin] of
        (Inl err, s4) \<Rightarrow> (Inl err, s4)
      | (Inr _, s4) \<Rightarrow>
          SendResult_loop_with listen (listen (Listener plugin) result s4) result rest)"

definition SendResult_with ::
  "(listener \<Rightarrow> ptr \<Rightarrow> store \<Rightarrow> store) \<Rightarrow> store \<Rightarrow> PluginBroker \<Rightarrow> ptr
     \<Rightarrow> (error + unit) \<times> store" where
  "SendResult_with listen s p result = SendResult_loop_with listen s result (plugins p)"

subsection \<open>Outcomes of loading one path\<close>

text \<open>
  The three ways in which loading a path fails with an error: the module cannot be
  opened, it has no symbol \<^verbatim>\<open>New\<close>, or its factory returns an error.
\<close>

definition load_fails :: "plugin_env \<Rightarrow> logger \<Rightarrow> string \<Rightarrow> bool" where
  "load_fails env lg path =
     (case env path of
        Inl err \<Rightarrow> True
      | Inr plg \<Rightarrow>
          (case plg ''New'' of
             None \<Rightarrow> True
           | Some OtherSymbol \<Rightarrow> False
           | Some (Initializer initializer) \<Rightarrow>
               (case initializer lg of Inl err \<Rightarrow> True | Inr l \<Rightarrow> False)))"

text \<open>The module exports \<^verbatim>\<open>New\<close> with another type: the type assertion panics.\<close>

definition ill_typed :: "plugin_env \<Rightarrow> string \<Rightarrow> bool" where
  "ill_typed env path =
     (case env path of
        Inl err \<Rightarrow> False
      | Inr plg \<Rightarrow> (case plg ''New'' of Some OtherSymbol \<Rightarrow> True | _ \<Rightarrow> False))"

text \<open>The listener that a path yields when it loads.\<close>

definition loaded :: "plugin_env \<Rightarrow> logger \<Rightarrow> string \<Rightarrow> listener option" where
  "loaded env lg path =
     (case env path of
        Inl err \<Rightarrow> None
      | Inr plg \<Rightarrow>
          (case plg ''New'' of
             None \<Rightarrow> None
           | Some OtherSymbol \<Rightarrow> None
           | Some (Initializer initializer) \<Rightarrow>
               (case initializer lg of Inl err \<Rightarrow> None | Inr l \<Rightarrow> Some l)))"

subsection \<open>Auxiliary notions for the proofs\<close>

text \<open>The effect of \<open>Header_Clone\<close> on the heap of header maps alone.\<close>

definition clone_hdr :: "header list \<Rightarrow> ptr \<Rightarrow> ptr \<times> header list" where
  "clone_hdr hs h = (case deref hs h of None \<Rightarrow> (None, hs)
                     | Some m \<Rightarrow> (Some (length hs), hs @ [m]))"



text \<open>
  The Result refers to a Request whose body is nil or a reader that cannot fail, and to
  a Response whose body is a reader that cannot fail.
\<close>

definition Result_in_memory :: "store \<Rightarrow> ptr \<Rightarrow> bool" where
  "Result_in_memory s result \<longleftrightarrow>
     (\<exists>res hr h hr' h' rd'.
        deref (Results s) result = Some res \<and>
        deref (Requests s) (Request res) = Some hr \<and> deref (http_Requests s) hr = Some h \<and>
        (req_Body h = None \<or>
           (\<exists>rd. deref (readers s) (req_Body h) = Some rd \<and> failure rd = None)) \<and>
        deref (Responses s) (Response res) = Some hr' \<and>
        deref (http_Responses s) hr' = Some h' \<and>
        deref (readers s) (resp_Body h') = Some rd' \<and> failure rd' = None)"

subsection \<open>A concrete scenario\<close>

text \<open>
  One captured transaction: a request with body \<open>abc\<close>, a chunked response with body
  \<open>hi\<close>, the Result that refers to both, and a broker with two plugins, each with its
  own open channel.
\<close>

definition ex_store :: store where
  "ex_store =
     \<lparr>readers = [\<lparr>pending = [0x61, 0x62, 0x63], failure = None\<rparr>,
                 \<lparr>pending = [0x68, 0x69], failure = None\<rparr>],
      headers = [Map.empty(''Accept'' \<mapsto> [''*/*'']),
                 Map.empty(''Content-Type'' \<mapsto> [''text/plain''])],
      http_Requests =
        [\<lparr>req_Method = ''POST'', req_URL = ''http://target/'', req_Proto = ''HTTP/1.1'',
          req_ProtoMajor = 1, req_ProtoMinor = 1, req_Header = Some 0, req_Body = Some 0,
          req_ContentLength = 3, req_TransferEncoding = [], req_Close = False,
          req_Host = ''target'', req_Trailer = None, req_ctx = Some 0\<rparr>],
      http_Responses =
        [\<lparr>resp_Status = ''200 OK'', resp_StatusCode = 200, resp_Proto = ''HTTP/1.1'',
          resp_ProtoMajor = 1, resp_ProtoMinor = 1, resp_Header = Some 1,
          resp_Body = Some 1, resp_ContentLength = - 1,
          resp_TransferEncoding = [''chunked''], resp_Close = False,
          resp_Uncompressed = False, resp_Trailer = None, resp_Request = Some 0,
          resp_TLS = None\<rparr>],
      Requests = [Some 0],
      Responses = [Some 0],
      Results = [\<lparr>Request = Some 0, Response = Some 0, Payload = ''payload'',
                   Location = ''body'', FieldName = ''name'', TimeElapsed = 1000\<rparr>],
      chans = [\<lparr>received = [], closed = False\<rparr>, \<lparr>received = [], closed = False\<rparr>],
      goroutines = [(0, Some 0), (1, Some 1)]\<rparr>"

definition ex_broker :: PluginBroker where
  "ex_broker = \<lparr>plugins = [\<lparr>Input = Some 0, Listener = 0\<rparr>, \<lparr>Input = Some 1, Listener = 1\<rparr>],
                waitGroup = 2\<rparr>"

text \<open>The store of the scenario after \<open>SendResult\<close> has dispatched the Result.\<close>

definition ex_sent :: store where
  "ex_sent =
     \<lparr>readers = [\<lparr>pending = [], failure = None\<rparr>,
                 \<lparr>pending = [], failure = None\<rparr>,
                 \<lparr>pending = [0x61, 0x62, 0x63], failure = None\<rparr>,
                 \<lparr>pending = [], failure = None\<rparr>,
                 \<lparr>pending = [0x68, 0x69], failure = None\<rparr>,
                 \<lparr>pending = [], failure = None\<rparr>,
                 \<lparr>pending = [0x61, 0x62, 0x63], failure = None\<rparr>,
                 \<lparr>pending = [0x61, 0x62, 0x63], failure = None\<rparr>,
                 \<lparr>pending = [0x68, 0x69], failure = None\<rparr>,
                 \<lparr>pending = [0x68, 0x69], failure = None\<rparr>],
      headers = [Map.empty(''Accept'' \<mapsto> [''*/*'']),
                 Map.empty(''Content-Type'' \<mapsto> [''text/plain'']),
                 Map.empty(''Accept'' \<mapsto> [''*/*'']),
                 Map.empty(''Content-Type'' \<mapsto> [''text/plain'']),
                 Map.empty(''Accept'' \<mapsto> [''*/*'']),
                 Map.empty(''Content-Type'' \<mapsto> [''text/plain''])],
      http_Requests =
        [\<lparr>req_Method = ''POST'', req_URL = ''http://target/'', req_Proto = ''HTTP/1.1'',
          req_ProtoMajor = 1, req_ProtoMinor = 1, req_Header = Some 0, req_Body = Some 2,
          req_ContentLength = 3, req_TransferEncoding = [], req_Close = False,
          req_Host = ''target'', req_Trailer = None, req_ctx = Some 0\<rparr>,
         \<lparr>req_Method = ''POST'', req_URL = ''http://target/'', req_Proto = ''HTTP/1.1'',
          req_ProtoMajor = 1, req_ProtoMinor = 1, req_Header = Some 2, req_Body = Some 6,
          req_ContentLength = 3, req_TransferEncoding = [], req_Close = False,
          req_Host = ''target'', req_Trailer = None, req_ctx = Some 0\<rparr>,
         \<lparr>req_Method = ''POST'', req_URL = ''http://target/'', req_Proto = ''HTTP/1.1'',
          req_ProtoMajor = 1, req_ProtoMinor = 1, req_Header = Some 4, req_Body = Some 7,
          req_ContentLength = 3, req_TransferEncoding = [], req_Close = False,
          req_Host = ''target'', req_Trailer = None, req_ctx = Some 0\<rparr>],
      http_Responses =
        [\<lparr>resp_Status = ''200 OK'', resp_StatusCode = 200, resp_Proto = ''HTTP/1.1'',
          resp_ProtoMajor = 1, resp_ProtoMinor = 1, resp_Header = Some 1,
          resp_Body = Some 4, resp_ContentLength = - 1,
          resp_TransferEncoding = [''chunked''], resp_Close = False,
          resp_Uncompressed = False, resp_Trailer = None, resp_Request = Some 0,
          resp_TLS = None\<rparr>,
         \<lparr>resp_Status = ''200 OK'', resp_StatusCode = 200, resp_Proto = ''HTTP/1.1'',
          resp_ProtoMajor = 1, resp_ProtoMinor = 1, resp_Header = Some 3,
          resp_Body = Some 8, resp_ContentLength = - 1,
          resp_TransferEncoding = [], resp_Close = False,
          resp_Uncompressed = False, resp_Trailer = None, resp_Request = Some 0,
          resp_TLS = None\<rparr>,
         \<lparr>resp_Status = ''200 OK'', resp_StatusCode = 200, resp_Proto = ''HTTP/1.1'',
          resp_ProtoMajor = 1, resp_ProtoMinor = 1, resp_Header = Some 5,
          resp_Body = Some 9, resp_ContentLength = - 1,
          resp_TransferEncoding = [], resp_Close = False,
          resp_Uncompressed = False, resp_Trailer = None, resp_Request = Some 0,
          resp_TLS = None\<rparr>],
      Requests = [Some 0, Some 1, Some 2],
      Responses = [Some 0, Some 1, Some 2],
      Results = [\<lparr>Request = Some 2, Response = Some 2, Payload = ''payload'',
                   Location = ''body'', FieldName = ''name'', TimeElapsed = 1000\<rparr>],
      chans = [\<lparr>received = [Some 0], closed = False\<rparr>,
               \<lparr>received = [Some 0], closed = False\<rparr>],
      goroutines = [(0, Some 0), (1, Some 1)]\<rparr>"

text \<open>
  The worker of listener 0 replaces the body of the request it is handed by a reader
  whose read fails (\<^verbatim>\<open>result.Request.Body = ...\<close>); the other workers leave the store
  alone.
\<close>

definition ex_listen :: "listener \<Rightarrow> ptr \<Rightarrow> store \<Rightarrow> store" where
  "ex_listen l result s =
     (if l = 0 then
        (case deref (Results s) result of
           None \<Rightarrow> s
         | Some res \<Rightarrow>
             (case deref (Requests s) (Request res) of
                None \<Rightarrow> s
              | Some hr \<Rightarrow>
                  s\<lparr>readers := readers s @ [\<lparr>pending = [], failure = Some ''read error''\<rparr>],
                    http_Requests := upd (http_Requests s) hr
                                       (\<lambda>h. h\<lparr>req_Body := Some (length (readers s))\<rparr>)\<rparr>))
      else s)"

text \<open>
  The store of the scenario after the dispatch to the first plugin, whose worker has
  then replaced the body.
\<close>

definition ex_mid :: store where
  "ex_mid =
     \<lparr>readers = [\<lparr>pending = [], failure = None\<rparr>,
                 \<lparr>pending = [], failure = None\<rparr>,
                 \<lparr>pending = [0x61, 0x62, 0x63], failure = None\<rparr>,
                 \<lparr>pending = [0x61, 0x62, 0x63], failure = None\<rparr>,
                 \<lparr>pending = [0x68, 0x69], failure = None\<rparr>,
                 \<lparr>pending = [0x68, 0x69], failure = None\<rparr>,
                 \<lparr>pending = [], failure = Some ''read error''\<rparr>],
      headers = [Map.empty(''Accept'' \<mapsto> [''*/*'']),
                 Map.empty(''Content-Type'' \<mapsto> [''text/plain'']),
                 Map.empty(''Accept'' \<mapsto> [''*/*'']),
                 Map.empty(''Content-Type'' \<mapsto> [''text/plain''])],
      http_Requests =
        [\<lparr>req_Method = ''POST'', req_URL = ''http://target/'', req_Proto = ''HTTP/1.1'',
          req_ProtoMajor = 1, req_ProtoMinor = 1, req_Header = Some 0, req_Body = Some 2,
          req_ContentLength = 3, req_TransferEncoding = [], req_Close = False,
          req_Host = ''target'', req_Trailer = None, req_ctx = Some 0\<rparr>,
         \<lparr>req_Method = ''POST'', req_URL = ''http://target/'', req_Proto = ''HTTP/1.1'',
          req_ProtoMajor = 1, req_ProtoMinor = 1, req_Header = Some 2, req_Body = Some 6,
          req_ContentLength = 3, req_TransferEncoding = [], req_Close = False,
          req_Host = ''target'', req_Trailer = None, req_ctx = Some 0\<rparr>],
      http_Responses =
        [\<lparr>resp_Status = ''200 OK'', resp_StatusCode = 200, resp_Proto = ''HTTP/1.1'',
          resp_ProtoMajor = 1, resp_ProtoMinor = 1, resp_Header = Some 1,
          resp_Body = Some 4, resp_ContentLength = - 1,
          resp_TransferEncoding = [''chunked''], resp_Close = False,
          resp_Uncompressed = False, resp_Trailer = None, resp_Request = Some 0,
          resp_TLS = None\<rparr>,
         \<lparr>resp_Status = ''200 OK'', resp_StatusCode = 200, resp_Proto = ''HTTP/1.1'',
          resp_ProtoMajor = 1, resp_ProtoMinor = 1, resp_Header = Some 3,
          resp_Body = Some 5, resp_ContentLength = - 1,
          resp_TransferEncoding = [], resp_Close = False,
          resp_Uncompressed = False, resp_Trailer = None, resp_Request = Some 0,
          resp_TLS = None\<rparr>],
      Requests = [Some 0, Some 1],
      Responses = [Some 0, Some 1],
      Results = [\<lparr>Request = Some 1, Response = Some 1, Payload = ''payload'',
                   Location = ''body'', FieldName = ''name'', TimeElapsed = 1000\<rparr>],
      chans = [\<lparr>received = [Some 0], closed = False\<rparr>,
               \<lparr>received = [], closed = False\<rparr>],
      goroutines = [(0, Some 0), (1, Some 1)]\<rparr>"

text \<open>The scenario with a request and a response that have no body (a nil Body).\<close>

definition ex_store_nobody :: store where
  "ex_store_nobody =
     ex_store\<lparr>http_Requests := map (\<lambda>h. h\<lparr>req_Body := None\<rparr>) (http_Requests ex_store),
              http_Responses := map (\<lambda>h. h\<lparr>resp_Body := None\<rparr>) (http_Responses ex_store)\<rparr>"

text \<open>
  A plugin directory: \<open>a.so\<close> and \<open>c.so\<close> load, \<open>b.so\<close> lacks the symbol \<^verbatim>\<open>New\<close>, and
  nothing else can be opened.
\<close>

definition ex_env :: plugin_env where
  "ex_env path =
     (if path = ''a.so'' then Inr (Map.empty(''New'' \<mapsto> Initializer (\<lambda>lg. Inr 7)))
      else if path = ''c.so'' then Inr (Map.empty(''New'' \<mapsto> Initializer (\<lambda>lg. Inr 9)))
      else if path = ''b.so'' then Inr Map.empty
      else Inl ''plugin.Open: file not found'')"


section \<open>Basic facts\<close>

subsection \<open>Heaps\<close>

lemma deref_Some_iff: "deref h p = Some x \<longleftrightarrow> (\<exists>a. p = Some a \<and> a < length h \<and> h ! a = x)"
  by (auto simp: deref_def split: option.splits)

lemma deref_None [simp]: "deref h None = None"
  by (simp add: deref_def)


lemma length_upd [simp]: "length (upd h p f) = length h"
  by (simp add: upd_def split: option.splits)

lemma deref_append_old: "deref h p = Some x \<Longrightarrow> deref (h @ t) p = Some x"
  by (auto simp: deref_def nth_append split: option.splits if_splits)

lemma deref_append_new: "length h = n \<Longrightarrow> deref (h @ x # t) (Some n) = Some x"
  by (auto simp: deref_def nth_append)

lemma deref_append_new2: "length h = n \<Longrightarrow> deref (h @ x # y # t) (Some (Suc n)) = Some y"
  by (auto simp: deref_def nth_append)

lemma deref_upd_same: "deref h p = Some x \<Longrightarrow> deref (upd h p f) p = Some (f x)"
  by (auto simp: deref_def upd_def split: option.splits if_splits)

lemma deref_upd_other: "p \<noteq> q \<Longrightarrow> deref (upd h p f) q = deref h q"
  by (auto simp: deref_def upd_def nth_list_update split: option.splits)

subsection \<open>The effect of the library operations and of CloneBody\<close>

lemma Header_Clone_eq:
  "Header_Clone s h = (fst (clone_hdr (headers s) h), s\<lparr>headers := snd (clone_hdr (headers s) h)\<rparr>)"
  by (simp add: Header_Clone_def clone_hdr_def split: option.splits)

lemma clone_hdr_props:
  "deref (snd (clone_hdr hs h)) (fst (clone_hdr hs h)) = deref hs h"
  "\<exists>t. snd (clone_hdr hs h) = hs @ t"
  "fst (clone_hdr hs h) = None \<or>
     (\<exists>k. fst (clone_hdr hs h) = Some k \<and> length hs \<le> k \<and> k < length (snd (clone_hdr hs h)))"
  "h = None \<Longrightarrow> fst (clone_hdr hs h) = None"
  by (auto simp: clone_hdr_def deref_def split: option.splits)

lemma ioutil_ReadAll_readable:
  "deref (readers s) b = Some rd \<Longrightarrow> failure rd = None \<Longrightarrow>
   ioutil_ReadAll s b = (Inr (pending rd), s\<lparr>readers := upd (readers s) b (\<lambda>r. r\<lparr>pending := []\<rparr>)\<rparr>)"
  by (simp add: ioutil_ReadAll_def)

lemma Request_CloneBody_frame:
  "Request_CloneBody s r c = (res, s') \<Longrightarrow>
     Results s' = Results s \<and> chans s' = chans s \<and> goroutines s' = goroutines s \<and>
     http_Responses s' = http_Responses s \<and> Responses s' = Responses s"
  by (auto simp: Request_CloneBody_def http_Request_Clone_def Header_Clone_def
        ioutil_ReadAll_def NewReader_def Let_def
      split: option.splits prod.splits sum.splits if_splits)

lemma Response_CloneBody_frame:
  "Response_CloneBody s r = (res, s') \<Longrightarrow>
     Results s' = Results s \<and> chans s' = chans s \<and> goroutines s' = goroutines s \<and>
     http_Requests s' = http_Requests s \<and> Requests s' = Requests s"
  by (auto simp: Response_CloneBody_def Header_Clone_def
        ioutil_ReadAll_def NewReader_def Let_def
      split: option.splits prod.splits sum.splits if_splits)

lemma Request_CloneBody_mono:
  "Request_CloneBody s r c = (res, s') \<Longrightarrow> length (Requests s) \<le> length (Requests s')"
  by (auto simp: Request_CloneBody_def http_Request_Clone_def Header_Clone_def
        ioutil_ReadAll_def NewReader_def Let_def
      split: option.splits prod.splits sum.splits if_splits)

lemma Response_CloneBody_mono:
  "Response_CloneBody s r = (res, s') \<Longrightarrow> length (Responses s) \<le> length (Responses s')"
  by (auto simp: Response_CloneBody_def Header_Clone_def
        ioutil_ReadAll_def NewReader_def Let_def
      split: option.splits prod.splits sum.splits if_splits)

lemma Request_CloneBody_Inr:
  "Request_CloneBody s r c = (Inr q, s') \<Longrightarrow>
     q = Some (length (Requests s)) \<and> length (Requests s') = Suc (length (Requests s)) \<and>
     (\<exists>a. r = Some a \<and> a < length (Requests s))"
  by (auto simp: Request_CloneBody_def http_Request_Clone_def Header_Clone_def
        ioutil_ReadAll_def NewReader_def Let_def deref_Some_iff
      split: option.splits prod.splits sum.splits if_splits)

lemma Response_CloneBody_Inr:
  "Response_CloneBody s r = (Inr q, s') \<Longrightarrow>
     q = Some (length (Responses s)) \<and> length (Responses s') = Suc (length (Responses s)) \<and>
     (\<exists>a. r = Some a \<and> a < length (Responses s))"
  by (auto simp: Response_CloneBody_def Header_Clone_def
        ioutil_ReadAll_def NewReader_def Let_def deref_Some_iff
      split: option.splits prod.splits sum.splits if_splits)

lemma chan_send_frame:
  "chan_send s c v = (res, s') \<Longrightarrow>
     Results s' = Results s \<and> Requests s' = Requests s \<and> Responses s' = Responses s \<and>
     http_Requests s' = http_Requests s \<and> http_Responses s' = http_Responses s \<and>
     readers s' = readers s \<and> headers s' = headers s \<and> goroutines s' = goroutines s \<and>
     length (chans s') = length (chans s)"
  by (auto simp: chan_send_def split: option.splits if_splits)

lemma Request_CloneBody_readable:
  assumes r: "deref (Requests s) r = Some hr"
      and h: "deref (http_Requests s) hr = Some h"
      and b: "deref (readers s) (req_Body h) = Some rd"
      and f: "failure rd = None"
      and c: "c \<noteq> None"
  shows "\<exists>s' h'. Request_CloneBody s r c = (Inr (Some (length (Requests s))), s') \<and>
           Requests s' = Requests s @ [Some (length (http_Requests s))] \<and>
           http_Requests s' =
             upd (http_Requests s) hr (\<lambda>h. h\<lparr>req_Body := Some (length (readers s))\<rparr>) @ [h'] \<and>
           req_Body h' = Some (Suc (length (readers s))) \<and>
           readers s' = upd (readers s) (req_Body h) (\<lambda>r. r\<lparr>pending := []\<rparr>)
                        @ [readable (pending rd), readable (pending rd)]"
proof -
  from c obtain cx where cx: "c = Some cx" by auto
  obtain hp s1 where hc: "Header_Clone s (req_Header h) = (hp, s1)"
    by (cases "Header_Clone s (req_Header h)")
  obtain tp s2 where tc: "Header_Clone s1 (req_Trailer h) = (tp, s2)"
    by (cases "Header_Clone s1 (req_Trailer h)")
  have fr: "readers s2 = readers s" "http_Requests s2 = http_Requests s" "Requests s2 = Requests s"
    using hc tc by (auto simp: Header_Clone_def split: option.splits)
  define h2 where "h2 = h\<lparr>req_ctx := c, req_Header := hp, req_Trailer := tp\<rparr>"
  have cl: "http_Request_Clone s hr c =
              (Inr (Some (length (http_Requests s))), s2\<lparr>http_Requests := http_Requests s @ [h2]\<rparr>)"
    using h hc tc fr by (simp add: http_Request_Clone_def cx h2_def)
  from b obtain ba where ba: "req_Body h = Some ba" "ba < length (readers s)"
    by (auto simp: deref_Some_iff)
  from h obtain ha where ha: "hr = Some ha" "ha < length (http_Requests s)"
    by (auto simp: deref_Some_iff)
  have body2: "req_Body h2 = Some ba" using ba by (simp add: h2_def)
  show ?thesis
    using r cl b f fr ba ha body2
    by (simp add: Request_CloneBody_def Let_def ioutil_ReadAll_def NewReader_def
          deref_append_new deref_append_old readable_def upd_def nth_append
          list_update_append)
qed

lemma Response_CloneBody_readable:
  assumes r: "deref (Responses s) r = Some hr"
      and h: "deref (http_Responses s) hr = Some orig"
      and b: "deref (readers s) (resp_Body orig) = Some rd"
      and f: "failure rd = None"
  shows "\<exists>s' hp tp. Response_CloneBody s r = (Inr (Some (length (Responses s))), s') \<and>
           Responses s' = Responses s @ [Some (length (http_Responses s))] \<and>
           http_Responses s' =
             upd (http_Responses s) hr (\<lambda>h. h\<lparr>resp_Body := Some (length (readers s))\<rparr>)
             @ [orig\<lparr>resp_Header := hp, resp_Trailer := tp,
                     resp_Body := Some (Suc (length (readers s))),
                     resp_TransferEncoding := []\<rparr>] \<and>
           deref (headers s') hp = deref (headers s) (resp_Header orig) \<and>
           (resp_Trailer orig = None \<longrightarrow> tp = None) \<and>
           (\<forall>m. deref (headers s) (resp_Trailer orig) = Some m \<longrightarrow>
                deref (headers s') tp = Some m) \<and>
           (hp = None \<or> (\<exists>k. hp = Some k \<and> length (headers s) \<le> k)) \<and>
           (tp = None \<or> (\<exists>k. tp = Some k \<and> length (headers s) \<le> k)) \<and>
           (\<exists>t. headers s' = headers s @ t) \<and>
           readers s' = upd (readers s) (resp_Body orig) (\<lambda>r. r\<lparr>pending := []\<rparr>)
                        @ [readable (pending rd), readable (pending rd)]"
proof -
  define hp where "hp = fst (clone_hdr (headers s) (resp_Header orig))"
  define hs1 where "hs1 = snd (clone_hdr (headers s) (resp_Header orig))"
  define tp where "tp = fst (clone_hdr hs1 (resp_Trailer orig))"
  define hs2 where "hs2 = snd (clone_hdr hs1 (resp_Trailer orig))"
  define s' where "s' = s\<lparr>
     readers := upd (readers s) (resp_Body orig) (\<lambda>r. r\<lparr>pending := []\<rparr>)
                @ [readable (pending rd), readable (pending rd)],
     headers := hs2,
     http_Responses :=
       upd (http_Responses s) hr (\<lambda>h. h\<lparr>resp_Body := Some (length (readers s))\<rparr>)
       @ [orig\<lparr>resp_Header := hp, resp_Trailer := tp,
               resp_Body := Some (Suc (length (readers s))),
               resp_TransferEncoding := []\<rparr>],
     Responses := Responses s @ [Some (length (http_Responses s))]\<rparr>"
  from b obtain ba where ba: "resp_Body orig = Some ba" "ba < length (readers s)"
    by (auto simp: deref_Some_iff)
  from h obtain ha where ha: "hr = Some ha" "ha < length (http_Responses s)" "http_Responses s ! ha = orig"
    by (auto simp: deref_Some_iff)
  have h1: "deref (http_Responses s @ [zero_Response]) hr = Some orig"
    using h by (simp add: deref_append_old)
  have call: "Response_CloneBody s r = (Inr (Some (length (Responses s))), s')"
    unfolding Response_CloneBody_def Let_def Header_Clone_eq NewReader_def
    using r h1 b f
    apply (simp add: ioutil_ReadAll_readable hp_def[symmetric] hs1_def[symmetric]
              tp_def[symmetric] hs2_def[symmetric])
    using ha ba
    apply (simp add: s'_def upd_def nth_append list_update_append readable_def
              zero_Response_def copy_def less_SucI)
    done
  obtain t1 where t1: "hs1 = headers s @ t1" using clone_hdr_props(2) hs1_def by blast
  obtain t2 where t2: "hs2 = hs1 @ t2" using clone_hdr_props(2) hs2_def by blast
  have p1: "deref hs1 hp = deref (headers s) (resp_Header orig)"
    unfolding hs1_def hp_def by (rule clone_hdr_props(1))
  have k1: "hp = None \<or> (\<exists>k. hp = Some k \<and> length (headers s) \<le> k \<and> k < length hs1)"
    unfolding hs1_def hp_def by (rule clone_hdr_props(3))
  have p2: "deref hs2 tp = deref hs1 (resp_Trailer orig)"
    unfolding hs2_def tp_def by (rule clone_hdr_props(1))
  have k2: "tp = None \<or> (\<exists>k. tp = Some k \<and> length hs1 \<le> k \<and> k < length hs2)"
    unfolding hs2_def tp_def by (rule clone_hdr_props(3))
  have c1: "deref hs2 hp = deref (headers s) (resp_Header orig)"
    using p1 k1 t2 by (auto simp: deref_def nth_append)
  have c2: "resp_Trailer orig = None \<longrightarrow> tp = None"
    unfolding tp_def by (simp add: clone_hdr_props(4))
  have c3: "\<forall>m. deref (headers s) (resp_Trailer orig) = Some m \<longrightarrow> deref hs2 tp = Some m"
    using p2 t1 by (simp add: deref_append_old)
  have c4: "tp = None \<or> (\<exists>k. tp = Some k \<and> length (headers s) \<le> k)"
    using k2 t1 by auto
  have c5: "\<exists>t. hs2 = headers s @ t" using t1 t2 by simp
  show ?thesis
    apply (rule exI[of _ s'], rule exI[of _ hp], rule exI[of _ tp])
    using call c1 c2 c3 c4 c5 k1 by (auto simp: s'_def)
qed

subsection \<open>Clones stay independent of their original\<close>











subsection \<open>The loop of SendResult\<close>

lemma SendResult_loop_Cons_Inr:
  assumes "SendResult_loop s result (plugin # rest) = (Inr u, s')"
  shows "\<exists>a res req s1 resp s2 s3 s4.
           result = Some a \<and> a < length (Results s) \<and> res = Results s ! a \<and>
           Request_CloneBody s (Request res) context_Background = (Inr req, s1) \<and>
           Response_CloneBody s1 (Response res) = (Inr resp, s2) \<and>
           s3 = s2\<lparr>Results := (Results s)[a := res\<lparr>Request := req, Response := resp\<rparr>]\<rparr> \<and>
           chan_send s3 (Input plugin) result = (Inr (), s4) \<and>
           SendResult_loop s4 result rest = (Inr u, s')"
proof -
  from assms obtain res where res: "deref (Results s) result = Some res"
    by (auto split: option.splits)
  then obtain a where a: "result = Some a" "a < length (Results s)" "res = Results s ! a"
    by (auto simp: deref_Some_iff)
  from assms res obtain req s1 where
    rq: "Request_CloneBody s (Request res) context_Background = (Inr req, s1)"
    by (auto split: prod.splits sum.splits)
  from assms res rq obtain resp s2 where
    rs: "Response_CloneBody s1 (Response res) = (Inr resp, s2)"
    by (auto split: prod.splits sum.splits)
  have R2: "Results s2 = Results s"
    using Request_CloneBody_frame[OF rq] Response_CloneBody_frame[OF rs] by simp
  define s3 where "s3 = s2\<lparr>Results := (Results s)[a := res\<lparr>Request := req, Response := resp\<rparr>]\<rparr>"
  have s3: "s2\<lparr>Results := upd (Results s2) result (\<lambda>r. r\<lparr>Request := req, Response := resp\<rparr>)\<rparr> = s3"
    using a R2 by (simp add: s3_def upd_def)
  from assms res rq rs s3 obtain s4 where
    cs: "chan_send s3 (Input plugin) result = (Inr (), s4)"
    and rest: "SendResult_loop s4 result rest = (Inr u, s')"
    by (auto simp: Let_def split: prod.splits sum.splits)
  show ?thesis using a rq rs cs rest s3_def by blast
qed

lemma SendResult_loop_append:
  "SendResult_loop s r (ps @ qs) =
     (case SendResult_loop s r ps of
        (Inl e, s1) \<Rightarrow> (Inl e, s1)
      | (Inr u, s1) \<Rightarrow> SendResult_loop s1 r qs)"
  by (induction ps arbitrary: s)
     (auto simp: Let_def split: option.splits prod.splits sum.splits)

lemma SendResult_loop_mono:
  "SendResult_loop s r ps = (res, s') \<Longrightarrow>
     length (Requests s) \<le> length (Requests s') \<and> length (Responses s) \<le> length (Responses s')"
proof (induction ps arbitrary: s)
  case Nil
  then show ?case by simp
next
  case (Cons p ps)
  show ?case
  proof (cases "deref (Results s) r")
    case None
    with Cons.prems show ?thesis by simp
  next
    case (Some x)
    obtain o1 s1 where c1: "Request_CloneBody s (Request x) context_Background = (o1, s1)"
      by (cases "Request_CloneBody s (Request x) context_Background")
    obtain o2 s2 where c2: "Response_CloneBody s1 (Response x) = (o2, s2)"
      by (cases "Response_CloneBody s1 (Response x)")
    note f1 = Request_CloneBody_frame[OF c1] Request_CloneBody_mono[OF c1]
    note f2 = Response_CloneBody_frame[OF c2] Response_CloneBody_mono[OF c2]
    show ?thesis
    proof (cases o1)
      case (Inl e)
      with Cons.prems Some c1 f1 show ?thesis by auto
    next
      case r1: (Inr req)
      show ?thesis
      proof (cases o2)
        case (Inl e)
        with Cons.prems Some c1 c2 r1 f1 f2 show ?thesis by auto
      next
        case r2: (Inr resp)
        define s3 where "s3 = s2\<lparr>Results := upd (Results s2) r
                                   (\<lambda>r. r\<lparr>Request := req, Response := resp\<rparr>)\<rparr>"
        obtain o4 s4 where c4: "chan_send s3 (Input p) r = (o4, s4)"
          by (cases "chan_send s3 (Input p) r")
        note f4 = chan_send_frame[OF c4]
        have l4: "length (Requests s) \<le> length (Requests s4)"
                 "length (Responses s) \<le> length (Responses s4)"
          using f1 f2 f4 by (simp_all add: s3_def)
        show ?thesis
        proof (cases o4)
          case (Inl e)
          with Cons.prems Some c1 c2 r1 r2 c4 l4 show ?thesis
            by (auto simp: s3_def[symmetric])
        next
          case (Inr u)
          with Cons.prems Some c1 c2 r1 r2 c4 have "SendResult_loop s4 r ps = (res, s')"
            by (auto simp: s3_def[symmetric])
          from Cons.IH[OF this] l4 show ?thesis by simp
        qed
      qed
    qed
  qed
qed

lemma SendResult_loop_Inr_valid:
  assumes "SendResult_loop s result ps = (Inr u, s')" and "ps \<noteq> []"
  shows "\<exists>a x y. result = Some a \<and> a < length (Results s) \<and>
           Request (Results s ! a) = Some x \<and> x < length (Requests s) \<and>
           Response (Results s ! a) = Some y \<and> y < length (Responses s)"
proof -
  from assms(2) obtain p rest where ps: "ps = p # rest" by (cases ps) auto
  from SendResult_loop_Cons_Inr[OF assms(1)[unfolded ps]] obtain a req s1 resp s2 where
    a: "result = Some a" "a < length (Results s)" and
    rq: "Request_CloneBody s (Request (Results s ! a)) context_Background = (Inr req, s1)" and
    rs: "Response_CloneBody s1 (Response (Results s ! a)) = (Inr resp, s2)"
    by blast
  from Request_CloneBody_Inr[OF rq] obtain x where
    x: "Request (Results s ! a) = Some x" "x < length (Requests s)" by blast
  from Response_CloneBody_Inr[OF rs] obtain y where
    "Response (Results s ! a) = Some y" "y < length (Responses s1)" by blast
  with Request_CloneBody_frame[OF rq] have
    y: "Response (Results s ! a) = Some y" "y < length (Responses s)" by simp_all
  from a x y show ?thesis by blast
qed

lemma map_upd_frame: "(\<And>x. g (f x) = g x) \<Longrightarrow> map g (upd h p f) = map g h"
  by (auto simp: upd_def map_update list_update_same_conv split: option.splits)

text \<open>Whatever its outcome, the loop leaves the channel heap's size and every Result's metadata unchanged.\<close>

lemma SendResult_loop_metadata:
  "SendResult_loop s r ps = (res, s') \<Longrightarrow> map metadata (Results s') = map metadata (Results s)"
proof (induction ps arbitrary: s)
  case Nil
  then show ?case by simp
next
  case (Cons p ps)
  show ?case
  proof (cases "deref (Results s) r")
    case None
    with Cons.prems show ?thesis by simp
  next
    case (Some x)
    obtain o1 s1 where c1: "Request_CloneBody s (Request x) context_Background = (o1, s1)"
      by (cases "Request_CloneBody s (Request x) context_Background")
    obtain o2 s2 where c2: "Response_CloneBody s1 (Response x) = (o2, s2)"
      by (cases "Response_CloneBody s1 (Response x)")
    note f1 = Request_CloneBody_frame[OF c1]
    note f2 = Response_CloneBody_frame[OF c2]
    show ?thesis
    proof (cases o1)
      case (Inl e)
      with Cons.prems Some c1 f1 show ?thesis by auto
    next
      case r1: (Inr req)
      show ?thesis
      proof (cases o2)
        case (Inl e)
        with Cons.prems Some c1 c2 r1 f1 f2 show ?thesis by auto
      next
        case r2: (Inr resp)
        define s3 where "s3 = s2\<lparr>Results := upd (Results s2) r
                                   (\<lambda>r. r\<lparr>Request := req, Response := resp\<rparr>)\<rparr>"
        obtain o4 s4 where c4: "chan_send s3 (Input p) r = (o4, s4)"
          by (cases "chan_send s3 (Input p) r")
        note f4 = chan_send_frame[OF c4]
        have m3: "map metadata (Results s3) = map metadata (Results s)"
          using f1 f2 by (simp add: s3_def map_upd_frame metadata_def)
        with f4 have m4: "map metadata (Results s4) = map metadata (Results s)" by simp
        show ?thesis
        proof (cases o4)
          case (Inl e)
          with Cons.prems Some c1 c2 r1 r2 c4 m4 show ?thesis
            by (auto simp: s3_def[symmetric])
        next
          case (Inr u)
          with Cons.prems Some c1 c2 r1 r2 c4 have "SendResult_loop s4 r ps = (res, s')"
            by (auto simp: s3_def[symmetric])
          from Cons.IH[OF this] m4 show ?thesis by simp
        qed
      qed
    qed
  qed
qed

lemma delivered_cong: "chans s' = chans s \<Longrightarrow> delivered s' pl = delivered s pl"
  by (simp add: delivered_def)

lemma chan_send_delivered:
  "chan_send s c v = (Inr u, s') \<Longrightarrow>
     delivered s' pl = (if Input pl = c then delivered s pl @ [v] else delivered s pl)"
  by (auto simp: chan_send_def delivered_def deref_upd_same deref_upd_other
           split: option.splits if_splits)

lemma SendResult_loop_delivered:
  "SendResult_loop s result ps = (Inr u, s') \<Longrightarrow> distinct (map Input ps) \<Longrightarrow>
     delivered s' pl = (if Input pl \<in> Input ` set ps then delivered s pl @ [result]
                        else delivered s pl)"
proof (induction ps arbitrary: s)
  case Nil
  then show ?case by simp
next
  case (Cons p ps)
  from SendResult_loop_Cons_Inr[OF Cons.prems(1)] obtain a req s1 resp s2 s4 where
    rq: "Request_CloneBody s (Request (Results s ! a)) context_Background = (Inr req, s1)" and
    rs: "Response_CloneBody s1 (Response (Results s ! a)) = (Inr resp, s2)" and
    cs: "chan_send (s2\<lparr>Results := (Results s)[a := (Results s ! a)\<lparr>Request := req, Response := resp\<rparr>]\<rparr>)
           (Input p) result = (Inr (), s4)" and
    rest: "SendResult_loop s4 result ps = (Inr u, s')"
    by blast
  have c2: "chans s2 = chans s"
    using Request_CloneBody_frame[OF rq] Response_CloneBody_frame[OF rs] by simp
  have d4: "delivered s4 pl = (if Input pl = Input p then delivered s pl @ [result] else delivered s pl)"
    using chan_send_delivered[OF cs, of pl] c2 by (simp add: delivered_def)
  from Cons.prems(2) have dist: "distinct (map Input ps)" and notin: "Input p \<notin> Input ` set ps"
    by simp_all
  from Cons.IH[OF rest dist] d4 notin show ?case by auto
qed

subsection \<open>The loop with running workers\<close>

lemma SendResult_loop_Cons_single:
  "SendResult_loop s r (p # rest) =
     (case SendResult_loop s r [p] of
        (Inl e, s4) \<Rightarrow> (Inl e, s4)
      | (Inr u, s4) \<Rightarrow> SendResult_loop s4 r rest)"
  using SendResult_loop_append[of s r "[p]" rest] by simp

text \<open>A listener that leaves the store alone gives the loop of \<open>SendResult\<close> itself.\<close>

lemma SendResult_loop_with_idle:
  "SendResult_loop_with (\<lambda>l v s. s) s r ps = SendResult_loop s r ps"
proof (induction ps arbitrary: s)
  case Nil
  show ?case by simp
next
  case (Cons p ps)
  show ?case
    unfolding SendResult_loop_with.simps SendResult_loop_Cons_single[of s r p ps]
    by (simp add: Cons.IH split: prod.splits sum.splits)
qed

lemma SendResult_loop_with_append:
  "SendResult_loop_with listen s r (ps @ qs) =
     (case SendResult_loop_with listen s r ps of
        (Inl e, s1) \<Rightarrow> (Inl e, s1)
      | (Inr u, s1) \<Rightarrow> SendResult_loop_with listen s1 r qs)"
proof (induction ps arbitrary: s)
  case Nil
  show ?case by simp
next
  case (Cons p ps)
  show ?case
    unfolding append_Cons SendResult_loop_with.simps
    by (simp add: Cons.IH split: prod.splits sum.splits)
qed

lemma SendResult_loop_with_delivered:
  "SendResult_loop_with listen s result ps = (Inr u, s') \<Longrightarrow> distinct (map Input ps) \<Longrightarrow>
   \<forall>l v s. chans (listen l v s) = chans s \<Longrightarrow>
     delivered s' pl = (if Input pl \<in> Input ` set ps then delivered s pl @ [result]
                        else delivered s pl)"
proof (induction ps arbitrary: s)
  case Nil
  then show ?case by simp
next
  case (Cons p ps)
  obtain o4 s4 where one: "SendResult_loop s result [p] = (o4, s4)"
    by (cases "SendResult_loop s result [p]")
  with Cons.prems(1) obtain u4 where o4: "o4 = Inr u4" and
    rest: "SendResult_loop_with listen (listen (Listener p) result s4) result ps = (Inr u, s')"
    unfolding SendResult_loop_with.simps by (auto split: sum.splits)
  have d4: "delivered s4 pl = (if Input pl = Input p then delivered s pl @ [result] else delivered s pl)"
    using SendResult_loop_delivered[OF one[unfolded o4], of pl] by simp
  have d5: "delivered (listen (Listener p) result s4) pl = delivered s4 pl"
    using Cons.prems(3) by (simp add: delivered_def)
  from Cons.prems(2) have dist: "distinct (map Input ps)" and notin: "Input p \<notin> Input ` set ps"
    by simp_all
  from Cons.IH[OF rest dist Cons.prems(3)] d4 d5 notin show ?case by auto
qed

lemma SendResult_with_idle: "SendResult_with (\<lambda>l v s. s) s p result = SendResult s p result"
  by (simp add: SendResult_with_def SendResult_def SendResult_loop_with_idle)

subsection \<open>Errors stem from the clones for the first plugin\<close>

lemma deref_upd_failure:
  "deref h p = Some rd \<Longrightarrow>
   \<exists>rd2. deref (upd h q (\<lambda>r. r\<lparr>pending := []\<rparr>) @ t) p = Some rd2 \<and> failure rd2 = failure rd"
  by (cases "q = p") (auto simp: deref_append_old deref_upd_same deref_upd_other)

lemma ioutil_ReadAll_Inr:
  "ioutil_ReadAll s b = (Inr body, s') \<Longrightarrow>
     \<exists>rd. deref (readers s) b = Some rd \<and> failure rd = None \<and> pending rd = body"
  by (auto simp: ioutil_ReadAll_def Let_def split: option.splits)

text \<open>A clone that has been made has a body that is nil or an in-memory reader.\<close>

lemma Request_CloneBody_Inr_cases:
  assumes "Request_CloneBody s r c = (Inr q, s1)"
  shows "\<exists>hr h. deref (Requests s) r = Some hr \<and> deref (http_Requests s) hr = Some h \<and> c \<noteq> None \<and>
           (req_Body h = None \<or> (\<exists>rd. deref (readers s) (req_Body h) = Some rd \<and> failure rd = None))"
proof -
  from assms obtain hr where r: "deref (Requests s) r = Some hr"
    by (auto simp: Request_CloneBody_def split: option.splits)
  from assms r obtain cx where c: "c = Some cx"
    by (cases c) (auto simp: Request_CloneBody_def http_Request_Clone_def)
  from assms r c obtain h where h: "deref (http_Requests s) hr = Some h"
    by (auto simp: Request_CloneBody_def http_Request_Clone_def split: option.splits)
  show ?thesis
  proof (cases "req_Body h = None")
    case True
    with r h c show ?thesis by auto
  next
    case False
    have "\<exists>rd. deref (readers s) (req_Body h) = Some rd \<and> failure rd = None"
      using assms r h c False
      by (auto simp: Request_CloneBody_def http_Request_Clone_def Header_Clone_eq Let_def
            deref_append_new ioutil_ReadAll_def split: option.splits prod.splits sum.splits)
    with r h c show ?thesis by auto
  qed
qed

lemma Request_CloneBody_nil:
  assumes "deref (Requests s) r = Some hr" "deref (http_Requests s) hr = Some h"
          "req_Body h = None" "c \<noteq> None"
  shows "\<exists>s' g. Request_CloneBody s r c = (Inr (Some (length (Requests s))), s') \<and>
           readers s' = readers s \<and>
           http_Requests s' = http_Requests s @ [g] \<and> req_Body g = None \<and>
           Requests s' = Requests s @ [Some (length (http_Requests s))] \<and>
           (\<exists>t. headers s' = headers s @ t)"
proof -
  from assms obtain cx where cx: "c = Some cx" by auto
  from assms show ?thesis
    using clone_hdr_props(2)[of "headers s" "req_Header h"]
          clone_hdr_props(2)[of "snd (clone_hdr (headers s) (req_Header h))" "req_Trailer h"]
    by (auto simp add: Request_CloneBody_def http_Request_Clone_def Header_Clone_eq cx Let_def
          deref_append_new)
qed

text \<open>What a successful clone of the Request leaves behind.\<close>

lemma Request_CloneBody_post:
  assumes "Request_CloneBody s r c = (Inr q, s1)"
  shows "(\<exists>hq g. deref (Requests s1) q = Some hq \<and> deref (http_Requests s1) hq = Some g \<and>
            (req_Body g = None \<or>
               (\<exists>rd. deref (readers s1) (req_Body g) = Some rd \<and> failure rd = None))) \<and>
         (\<forall>p rd. deref (readers s) p = Some rd \<longrightarrow>
            (\<exists>rd2. deref (readers s1) p = Some rd2 \<and> failure rd2 = failure rd))"
proof -
  from Request_CloneBody_Inr_cases[OF assms] obtain hr h where
    r: "deref (Requests s) r = Some hr" and h: "deref (http_Requests s) hr = Some h" and
    c: "c \<noteq> None" and
    b: "req_Body h = None \<or> (\<exists>rd. deref (readers s) (req_Body h) = Some rd \<and> failure rd = None)"
    by blast
  from b show ?thesis
  proof
    assume n: "req_Body h = None"
    from Request_CloneBody_nil[OF r h n c] assms obtain g where
      "readers s1 = readers s" "http_Requests s1 = http_Requests s @ [g]" "req_Body g = None"
      "Requests s1 = Requests s @ [Some (length (http_Requests s))]"
      "q = Some (length (Requests s))"
      by auto
    then show ?thesis by (auto simp: deref_append_new)
  next
    assume "\<exists>rd. deref (readers s) (req_Body h) = Some rd \<and> failure rd = None"
    then obtain rd where rd: "deref (readers s) (req_Body h) = Some rd" "failure rd = None" by blast
    from Request_CloneBody_readable[OF r h rd c] assms obtain h' where
      q: "q = Some (length (Requests s))" and
      R: "Requests s1 = Requests s @ [Some (length (http_Requests s))]" and
      H: "http_Requests s1 =
            upd (http_Requests s) hr (\<lambda>h. h\<lparr>req_Body := Some (length (readers s))\<rparr>) @ [h']" and
      B: "req_Body h' = Some (Suc (length (readers s)))" and
      D: "readers s1 = upd (readers s) (req_Body h) (\<lambda>r. r\<lparr>pending := []\<rparr>)
                        @ [readable (pending rd), readable (pending rd)]"
      by auto
    have 1: "deref (Requests s1) q = Some (Some (length (http_Requests s)))"
      using q R by (simp add: deref_append_new)
    have 2: "deref (http_Requests s1) (Some (length (http_Requests s))) = Some h'"
      using H by (simp add: deref_append_new)
    have 3: "deref (readers s1) (req_Body h') = Some (readable (pending rd))"
      using D B by (simp add: deref_append_new2)
    have 4: "\<forall>p rd. deref (readers s) p = Some rd \<longrightarrow>
               (\<exists>rd2. deref (readers s1) p = Some rd2 \<and> failure rd2 = failure rd)"
      unfolding D using deref_upd_failure by blast
    from 1 2 3 4 show ?thesis by (auto simp: readable_def)
  qed
qed

lemma Response_CloneBody_Inr_cases:
  assumes "Response_CloneBody s r = (Inr q, s2)"
  shows "\<exists>hr h rd. deref (Responses s) r = Some hr \<and> deref (http_Responses s) hr = Some h \<and>
           deref (readers s) (resp_Body h) = Some rd \<and> failure rd = None"
proof -
  from assms obtain hr where r: "deref (Responses s) r = Some hr"
    by (auto simp: Response_CloneBody_def Let_def split: option.splits)
  from assms r obtain h where h1: "deref (http_Responses s @ [zero_Response]) hr = Some h"
    by (auto simp: Response_CloneBody_def Let_def split: option.splits)
  from assms r h1 obtain rd where rd: "deref (readers s) (resp_Body h) = Some rd" "failure rd = None"
    by (auto simp: Response_CloneBody_def Let_def Header_Clone_eq ioutil_ReadAll_def
             split: option.splits prod.splits sum.splits)
  show ?thesis
  proof (cases "hr = Some (length (http_Responses s))")
    case True
    with h1 have "h = zero_Response" by (simp add: deref_def)
    with rd show ?thesis by (simp add: zero_Response_def)
  next
    case False
    with h1 have "deref (http_Responses s) hr = Some h"
      by (auto simp: deref_def nth_append split: option.splits if_splits)
    with r rd show ?thesis by blast
  qed
qed

lemma Response_CloneBody_post:
  assumes "Response_CloneBody s r = (Inr q, s2)"
  shows "(\<exists>hq g rd. deref (Responses s2) q = Some hq \<and> deref (http_Responses s2) hq = Some g \<and>
            deref (readers s2) (resp_Body g) = Some rd \<and> failure rd = None) \<and>
         (\<forall>p rd. deref (readers s) p = Some rd \<longrightarrow>
            (\<exists>rd2. deref (readers s2) p = Some rd2 \<and> failure rd2 = failure rd))"
proof -
  from Response_CloneBody_Inr_cases[OF assms] obtain hr h rd where
    r: "deref (Responses s) r = Some hr" and h: "deref (http_Responses s) hr = Some h" and
    rd: "deref (readers s) (resp_Body h) = Some rd" "failure rd = None"
    by blast
  from Response_CloneBody_readable[OF r h rd] assms obtain h' where
    q: "q = Some (length (Responses s))" and
    R: "Responses s2 = Responses s @ [Some (length (http_Responses s))]" and
    H: "http_Responses s2 =
          upd (http_Responses s) hr (\<lambda>h. h\<lparr>resp_Body := Some (length (readers s))\<rparr>) @ [h']" and
    B: "resp_Body h' = Some (Suc (length (readers s)))" and
    D: "readers s2 = upd (readers s) (resp_Body h) (\<lambda>r. r\<lparr>pending := []\<rparr>)
                      @ [readable (pending rd), readable (pending rd)]"
    by fastforce
  have 1: "deref (Responses s2) q = Some (Some (length (http_Responses s)))"
    using q R by (simp add: deref_append_new)
  have 2: "deref (http_Responses s2) (Some (length (http_Responses s))) = Some h'"
    using H by (simp add: deref_append_new)
  have 3: "deref (readers s2) (resp_Body h') = Some (readable (pending rd))"
    using D B by (simp add: deref_append_new2)
  have 4: "\<forall>p rd. deref (readers s) p = Some rd \<longrightarrow>
             (\<exists>rd2. deref (readers s2) p = Some rd2 \<and> failure rd2 = failure rd)"
    unfolding D using deref_upd_failure by blast
  from 1 2 3 4 show ?thesis by (auto simp: readable_def)
qed


lemma chan_send_no_Error: "chan_send s c v = (out, s') \<Longrightarrow> out \<noteq> Inl (Error msg)"
  by (auto simp: chan_send_def split: option.splits if_splits)

text \<open>After an iteration that went through, the Result refers to in-memory clones.\<close>

lemma iteration_in_memory:
  assumes a: "a < length (Results s)"
      and rq: "Request_CloneBody s (Request (Results s ! a)) c = (Inr req, s1)"
      and rs: "Response_CloneBody s1 (Response (Results s ! a)) = (Inr resp, s2)"
      and cs: "chan_send (s2\<lparr>Results := (Results s)[a := (Results s ! a)\<lparr>Request := req, Response := resp\<rparr>]\<rparr>)
                 ch (Some a) = (out, s4)"
  shows "Result_in_memory s4 (Some a)"
proof -
  from Request_CloneBody_post[OF rq] obtain hq g where
    1: "deref (Requests s1) req = Some hq" "deref (http_Requests s1) hq = Some g" and
    2: "req_Body g = None \<or> (\<exists>rd. deref (readers s1) (req_Body g) = Some rd \<and> failure rd = None)"
    by blast
  from Response_CloneBody_post[OF rs] obtain hq' g' rd' where
    3: "deref (Responses s2) resp = Some hq'" "deref (http_Responses s2) hq' = Some g'"
       "deref (readers s2) (resp_Body g') = Some rd'" "failure rd' = None" and
    4: "\<forall>p rd. deref (readers s1) p = Some rd \<longrightarrow>
          (\<exists>rd2. deref (readers s2) p = Some rd2 \<and> failure rd2 = failure rd)"
    by blast
  from 2 4 have 5: "req_Body g = None \<or>
                    (\<exists>rd. deref (readers s2) (req_Body g) = Some rd \<and> failure rd = None)"
    by fastforce
  note f2 = Response_CloneBody_frame[OF rs]
  note f4 = chan_send_frame[OF cs]
  have R4: "deref (Results s4) (Some a) = Some ((Results s ! a)\<lparr>Request := req, Response := resp\<rparr>)"
    using f4 a by (simp add: deref_def)
  have "deref (Requests s4) req = Some hq" "deref (http_Requests s4) hq = Some g"
       "deref (Responses s4) resp = Some hq'" "deref (http_Responses s4) hq' = Some g'"
       "deref (readers s4) (resp_Body g') = Some rd'"
       "req_Body g = None \<or> (\<exists>rd. deref (readers s4) (req_Body g) = Some rd \<and> failure rd = None)"
    using 1 3 5 f2 f4 by simp_all
  with R4 3(4) show ?thesis
    unfolding Result_in_memory_def
    by (intro exI[of _ "(Results s ! a)\<lparr>Request := req, Response := resp\<rparr>"]
              exI[of _ hq] exI[of _ g] exI[of _ hq'] exI[of _ g'] exI[of _ rd']) simp
qed

text \<open>With in-memory clones behind the Result, no iteration returns an error.\<close>

lemma in_memory_clones:
  assumes "Result_in_memory s result"
  shows "\<exists>a req s1 resp s2. result = Some a \<and> a < length (Results s) \<and>
           Request_CloneBody s (Request (Results s ! a)) context_Background = (Inr req, s1) \<and>
           Response_CloneBody s1 (Response (Results s ! a)) = (Inr resp, s2)"
proof -
  from assms obtain res hr h hr' h' rd' where
    r: "deref (Results s) result = Some res" and
    q: "deref (Requests s) (Request res) = Some hr" "deref (http_Requests s) hr = Some h" and
    b: "req_Body h = None \<or> (\<exists>rd. deref (readers s) (req_Body h) = Some rd \<and> failure rd = None)" and
    p: "deref (Responses s) (Response res) = Some hr'" "deref (http_Responses s) hr' = Some h'"
       "deref (readers s) (resp_Body h') = Some rd'" "failure rd' = None"
    unfolding Result_in_memory_def by blast
  from r obtain a where a: "result = Some a" "a < length (Results s)" "res = Results s ! a"
    by (auto simp: deref_Some_iff)
  have c: "context_Background \<noteq> None" by (simp add: context_Background_def)
  have "\<exists>req s1. Request_CloneBody s (Request res) context_Background = (Inr req, s1)"
    using b
  proof
    assume "req_Body h = None"
    from Request_CloneBody_nil[OF q this c] show ?thesis by blast
  next
    assume "\<exists>rd. deref (readers s) (req_Body h) = Some rd \<and> failure rd = None"
    then obtain rd where "deref (readers s) (req_Body h) = Some rd" "failure rd = None" by blast
    from Request_CloneBody_readable[OF q this c] show ?thesis by blast
  qed
  then obtain req s1 where rq: "Request_CloneBody s (Request res) context_Background = (Inr req, s1)"
    by blast
  note f1 = Request_CloneBody_frame[OF rq]
  from Request_CloneBody_post[OF rq] p(3) obtain rd2 where
    rd2: "deref (readers s1) (resp_Body h') = Some rd2" "failure rd2 = failure rd'" by blast
  have "deref (Responses s1) (Response res) = Some hr'" "deref (http_Responses s1) hr' = Some h'"
    using p f1 by simp_all
  from Response_CloneBody_readable[OF this rd2(1)] rd2(2) p(4) obtain resp s2 where
    "Response_CloneBody s1 (Response res) = (Inr resp, s2)" by auto
  with a rq show ?thesis by blast
qed

lemma SendResult_loop_in_memory_no_Error:
  "Result_in_memory s result \<Longrightarrow> SendResult_loop s result ps = (out, s') \<Longrightarrow>
   out \<noteq> Inl (Error msg)"
proof (induction ps arbitrary: s)
  case Nil
  then show ?case by auto
next
  case (Cons p ps)
  from in_memory_clones[OF Cons.prems(1)] obtain a req s1 resp s2 where
    a: "result = Some a" "a < length (Results s)" and
    rq: "Request_CloneBody s (Request (Results s ! a)) context_Background = (Inr req, s1)" and
    rs: "Response_CloneBody s1 (Response (Results s ! a)) = (Inr resp, s2)"
    by blast
  have R2: "Results s2 = Results s"
    using Request_CloneBody_frame[OF rq] Response_CloneBody_frame[OF rs] by simp
  let ?s3 = "s2\<lparr>Results := (Results s)[a := (Results s ! a)\<lparr>Request := req, Response := resp\<rparr>]\<rparr>"
  obtain o4 s4 where cs: "chan_send ?s3 (Input p) (Some a) = (o4, s4)"
    by (cases "chan_send ?s3 (Input p) (Some a)")
  have unf: "SendResult_loop s result (p # ps) =
               (case o4 of Inl err \<Rightarrow> (Inl err, s4) | Inr u \<Rightarrow> SendResult_loop s4 result ps)"
    using a rq rs cs R2 by (simp add: deref_def upd_def Let_def split: sum.splits)
  show ?case
  proof (cases o4)
    case (Inl e)
    with unf Cons.prems(2) chan_send_no_Error[OF cs] show ?thesis by auto
  next
    case (Inr u)
    with unf Cons.prems(2) have rest: "SendResult_loop s4 result ps = (out, s')" by simp
    have "Result_in_memory s4 result"
      using iteration_in_memory[OF a(2) rq rs cs] a(1) by simp
    from Cons.IH[OF this rest] show ?thesis .
  qed
qed

text \<open>
  So an error that \<open>SendResult\<close> returns stems from the clones made for the first
  plugin: no channel has been written when it is returned.
\<close>

lemma SendResult_loop_Error_first:
  assumes "SendResult_loop s result ps = (Inl (Error msg), s')"
  shows "chans s' = chans s"
proof (cases ps)
  case Nil
  with assms show ?thesis by simp
next
  case (Cons p rest)
  note run = assms[unfolded Cons]
  show ?thesis
  proof (cases "deref (Results s) result")
    case None
    with run show ?thesis by simp
  next
    case (Some res)
    then obtain a where a: "result = Some a" "a < length (Results s)" "res = Results s ! a"
      by (auto simp: deref_Some_iff)
    obtain o1 s1 where c1: "Request_CloneBody s (Request res) context_Background = (o1, s1)"
      by (cases "Request_CloneBody s (Request res) context_Background")
    obtain o2 s2 where c2: "Response_CloneBody s1 (Response res) = (o2, s2)"
      by (cases "Response_CloneBody s1 (Response res)")
    note f1 = Request_CloneBody_frame[OF c1]
    note f2 = Response_CloneBody_frame[OF c2]
    show ?thesis
    proof (cases o1)
      case (Inl e)
      with run Some c1 f1 show ?thesis by auto
    next
      case r1: (Inr req)
      show ?thesis
      proof (cases o2)
        case (Inl e)
        with run Some c1 c2 r1 f1 f2 show ?thesis by auto
      next
        case r2: (Inr resp)
        let ?s3 = "s2\<lparr>Results := (Results s)[a := (Results s ! a)\<lparr>Request := req, Response := resp\<rparr>]\<rparr>"
        have s3: "s2\<lparr>Results := upd (Results s2) result (\<lambda>r. r\<lparr>Request := req, Response := resp\<rparr>)\<rparr> = ?s3"
          using a f1 f2 by (simp add: upd_def)
        obtain o4 s4 where cs: "chan_send ?s3 (Input p) (Some a) = (o4, s4)"
          by (cases "chan_send ?s3 (Input p) (Some a)")
        have unf: "SendResult_loop s result (p # rest) =
               (case o4 of Inl err \<Rightarrow> (Inl err, s4) | Inr u \<Rightarrow> SendResult_loop s4 result rest)"
          using Some c1 c2 r1 r2 s3 cs a(1) by (simp add: Let_def split: sum.splits)
        show ?thesis
        proof (cases o4)
          case (Inl e)
          with unf run chan_send_no_Error[OF cs] show ?thesis by auto
        next
          case (Inr u)
          with unf run have rest: "SendResult_loop s4 result rest = (Inl (Error msg), s')" by simp
          have "Result_in_memory s4 result"
            using iteration_in_memory[OF a(2) c1[unfolded a(3) r1] c2[unfolded a(3) r2] cs] a(1)
            by simp
          from SendResult_loop_in_memory_no_Error[OF this rest, of msg] show ?thesis by simp
        qed
      qed
    qed
  qed
qed

subsection \<open>The loop of SignalDone\<close>

lemma chan_close_other:
  "chan_close s c = (out, s') \<Longrightarrow> c' \<noteq> c \<Longrightarrow> deref (chans s') c' = deref (chans s) c'"
  by (auto simp: chan_close_def deref_upd_other split: option.splits if_splits)

lemma chan_close_open:
  "deref (chans s) c = Some ch \<Longrightarrow> \<not> closed ch \<Longrightarrow>
   \<exists>s'. chan_close s c = (Inr (), s') \<and> deref (chans s') c = Some (ch\<lparr>closed := True\<rparr>)"
  by (simp add: chan_close_def deref_upd_same)

lemma SignalDone_loop_other:
  "SignalDone_loop s ps = (out, s') \<Longrightarrow> c \<notin> Input ` set ps \<Longrightarrow>
   deref (chans s') c = deref (chans s) c"
proof (induction ps arbitrary: s)
  case Nil
  then show ?case by simp
next
  case (Cons p ps)
  obtain o1 s1 where c1: "chan_close s (Input p) = (o1, s1)"
    by (cases "chan_close s (Input p)")
  from Cons.prems(2) have ne: "c \<noteq> Input p" and notin: "c \<notin> Input ` set ps" by auto
  have d1: "deref (chans s1) c = deref (chans s) c" by (rule chan_close_other[OF c1 ne])
  show ?case
  proof (cases o1)
    case (Inl e)
    with Cons.prems(1) c1 d1 show ?thesis by simp
  next
    case (Inr u)
    with Cons.prems(1) c1 have "SignalDone_loop s1 ps = (out, s')" by simp
    from Cons.IH[OF this notin] d1 show ?thesis by simp
  qed
qed

text \<open>
  \<open>SignalDone\<close> on plugins that have each their own open channel closes every one of
  these channels, keeping what was handed over on it, and returns.
\<close>

lemma SignalDone_loop_closes:
  "distinct (map Input ps) \<Longrightarrow>
   \<forall>pl\<in>set ps. \<exists>ch. deref (chans s) (Input pl) = Some ch \<and> \<not> closed ch \<Longrightarrow>
   \<exists>s'. SignalDone_loop s ps = (Inr (), s') \<and>
        (\<forall>pl\<in>set ps. \<exists>ch. deref (chans s) (Input pl) = Some ch \<and>
                          deref (chans s') (Input pl) = Some (ch\<lparr>closed := True\<rparr>))"
proof (induction ps arbitrary: s)
  case Nil
  then show ?case by simp
next
  case (Cons p ps)
  from Cons.prems(2) obtain ch where ch: "deref (chans s) (Input p) = Some ch" "\<not> closed ch"
    by auto
  from chan_close_open[OF ch] obtain s1 where
    c1: "chan_close s (Input p) = (Inr (), s1)" and
    d1: "deref (chans s1) (Input p) = Some (ch\<lparr>closed := True\<rparr>)" by blast
  from Cons.prems(1) have dist: "distinct (map Input ps)" and notin: "Input p \<notin> Input ` set ps"
    by simp_all
  have same: "deref (chans s1) (Input pl) = deref (chans s) (Input pl)" if "pl \<in> set ps" for pl
  proof -
    from that have "Input pl \<in> Input ` set ps" by (rule imageI)
    with notin have "Input pl \<noteq> Input p" by (metis (no_types))
    then show ?thesis by (rule chan_close_other[OF c1])
  qed
  with Cons.prems(2) have
    "\<forall>pl\<in>set ps. \<exists>ch. deref (chans s1) (Input pl) = Some ch \<and> \<not> closed ch" by simp
  from Cons.IH[OF dist this] obtain s' where
    run: "SignalDone_loop s1 ps = (Inr (), s')" and
    cl: "\<forall>pl\<in>set ps. \<exists>ch. deref (chans s1) (Input pl) = Some ch \<and>
                          deref (chans s') (Input pl) = Some (ch\<lparr>closed := True\<rparr>)" by blast
  have p': "deref (chans s') (Input p) = Some (ch\<lparr>closed := True\<rparr>)"
    using SignalDone_loop_other[OF run notin] d1 by simp
  have "SignalDone_loop s (p # ps) = (Inr (), s')" using c1 run by simp
  moreover have "\<forall>pl\<in>set (p # ps). \<exists>ch. deref (chans s) (Input pl) = Some ch \<and>
                          deref (chans s') (Input pl) = Some (ch\<lparr>closed := True\<rparr>)"
    using ch p' cl same by auto
  ultimately show ?case by blast
qed

subsection \<open>The loop of LoadPlugins\<close>

lemma loaded_Some_iff:
  "loaded env lg path = Some l \<longleftrightarrow>
     (\<exists>plg f. env path = Inr plg \<and> plg ''New'' = Some (Initializer f) \<and> f lg = Inr l)"
  by (auto simp: loaded_def split: sum.splits option.splits symbol.splits)

lemma loaded_None_iff:
  "loaded env lg path = None \<longleftrightarrow> load_fails env lg path \<or> ill_typed env path"
  by (auto simp: loaded_def load_fails_def ill_typed_def
           split: sum.splits option.splits symbol.splits)

lemma LoadPlugins_loop_Cons_loaded:
  assumes "loaded env lg path = Some l"
  shows "LoadPlugins_loop env s broker lg (path # rest) =
           LoadPlugins_loop env
             (s\<lparr>chans := chans s @ [\<lparr>received = [], closed = False\<rparr>],
                goroutines := goroutines s @ [(l, Some (length (chans s)))]\<rparr>)
             (broker\<lparr>plugins := plugins broker @ [\<lparr>Input = Some (length (chans s)), Listener = l\<rparr>],
                     waitGroup := waitGroup broker + 1\<rparr>)
             lg rest"
proof -
  from assms obtain plg f where
    "env path = Inr plg" "plg ''New'' = Some (Initializer f)" "f lg = Inr l"
    by (auto simp: loaded_Some_iff)
  then show ?thesis
    by (simp add: Lookup_def make_chan_def add_def run_def Let_def)
qed

lemma LoadPlugins_loop_Cons_fails:
  assumes "load_fails env lg path"
  shows "\<exists>msg. LoadPlugins_loop env s broker lg (path # rest) = (Inl (Error msg), s)"
  using assms
  by (auto simp: load_fails_def Lookup_def split: sum.splits option.splits symbol.splits)

lemma LoadPlugins_loop_Cons_not_loaded:
  assumes "loaded env lg path = None"
  shows "\<exists>e. LoadPlugins_loop env s broker lg (path # rest) = (Inl e, s)"
  using assms
  by (auto simp: loaded_def Lookup_def split: sum.splits option.splits symbol.splits)

lemma LoadPlugins_loop_fails:
  "\<forall>q\<in>set pre. loaded env lg q \<noteq> None \<Longrightarrow> load_fails env lg path \<Longrightarrow>
   \<exists>msg s'. LoadPlugins_loop env s broker lg (pre @ path # post) = (Inl (Error msg), s')"
proof (induction pre arbitrary: s broker)
  case Nil
  then show ?case using LoadPlugins_loop_Cons_fails[of env lg path s broker post] by auto
next
  case (Cons q pre)
  then obtain l where l: "loaded env lg q = Some l" by auto
  from Cons.prems have "\<forall>q\<in>set pre. loaded env lg q \<noteq> None" by simp
  then show ?case
    unfolding append_Cons LoadPlugins_loop_Cons_loaded[OF l]
    by (intro Cons.IH Cons.prems(2))
qed

lemma LoadPlugins_loop_no_broker:
  "\<exists>q\<in>set paths. loaded env lg q = None \<Longrightarrow>
   \<exists>e s'. LoadPlugins_loop env s broker lg paths = (Inl e, s')"
proof (induction paths arbitrary: s broker)
  case Nil
  then show ?case by simp
next
  case (Cons q paths)
  show ?case
  proof (cases "loaded env lg q")
    case None
    then show ?thesis using LoadPlugins_loop_Cons_not_loaded[of env lg q s broker paths] by auto
  next
    case (Some l)
    with Cons.prems have "\<exists>q\<in>set paths. loaded env lg q = None" by auto
    then show ?thesis
      unfolding LoadPlugins_loop_Cons_loaded[OF Some] by (rule Cons.IH)
  qed
qed

lemma LoadPlugins_loop_loaded:
  "\<forall>q\<in>set paths. loaded env lg q \<noteq> None \<Longrightarrow>
   \<exists>b s'. LoadPlugins_loop env s broker lg paths = (Inr b, s') \<and>
     (\<exists>new. plugins b = plugins broker @ new \<and>
        map (Some \<circ> Listener) new = map (loaded env lg) paths \<and>
        map Input new = map Some [length (chans s)..<length (chans s) + length paths] \<and>
        goroutines s' = goroutines s @ map (\<lambda>pl. (Listener pl, Input pl)) new) \<and>
     waitGroup b = waitGroup broker + int (length paths) \<and>
     chans s' = chans s @ replicate (length paths) \<lparr>received = [], closed = False\<rparr> \<and>
     readers s' = readers s \<and> headers s' = headers s \<and> http_Requests s' = http_Requests s \<and>
     http_Responses s' = http_Responses s \<and> Requests s' = Requests s \<and>
     Responses s' = Responses s \<and> Results s' = Results s"
proof (induction paths arbitrary: s broker)
  case Nil
  then show ?case by simp
next
  case (Cons q paths)
  then obtain l where l: "loaded env lg q = Some l" by auto
  let ?s1 = "s\<lparr>chans := chans s @ [\<lparr>received = [], closed = False\<rparr>],
               goroutines := goroutines s @ [(l, Some (length (chans s)))]\<rparr>"
  let ?b1 = "broker\<lparr>plugins := plugins broker @ [\<lparr>Input = Some (length (chans s)), Listener = l\<rparr>],
                    waitGroup := waitGroup broker + 1\<rparr>"
  from Cons.prems have "\<forall>q\<in>set paths. loaded env lg q \<noteq> None" by simp
  from Cons.IH[OF this, of ?s1 ?b1] obtain b s' new where
    run: "LoadPlugins_loop env ?s1 ?b1 lg paths = (Inr b, s')" and
    pl: "plugins b = plugins ?b1 @ new" and
    ls: "map (Some \<circ> Listener) new = map (loaded env lg) paths" and
    inp: "map Input new = map Some [length (chans ?s1)..<length (chans ?s1) + length paths]" and
    go: "goroutines s' = goroutines ?s1 @ map (\<lambda>pl. (Listener pl, Input pl)) new" and
    wg: "waitGroup b = waitGroup ?b1 + int (length paths)" and
    ch: "chans s' = chans ?s1 @ replicate (length paths) \<lparr>received = [], closed = False\<rparr>" and
    fr: "readers s' = readers ?s1" "headers s' = headers ?s1" "http_Requests s' = http_Requests ?s1"
        "http_Responses s' = http_Responses ?s1" "Requests s' = Requests ?s1"
        "Responses s' = Responses ?s1" "Results s' = Results ?s1"
    by blast
  let ?new = "\<lparr>Input = Some (length (chans s)), Listener = l\<rparr> # new"
  have 1: "plugins b = plugins broker @ ?new" using pl by simp
  have 2: "map (Some \<circ> Listener) ?new = map (loaded env lg) (q # paths)" using ls l by simp
  have 3: "map Input ?new = map Some [length (chans s)..<length (chans s) + length (q # paths)]"
  proof -
    have u: "[length (chans s)..<length (chans s) + length (q # paths)] =
             length (chans s) # [Suc (length (chans s))..<Suc (length (chans s)) + length paths]"
      by (simp add: upt_conv_Cons del: upt_Suc)
    have "length (chans ?s1) = Suc (length (chans s))" by simp
    with inp have "map Input new =
                   map Some [Suc (length (chans s))..<Suc (length (chans s)) + length paths]"
      by (simp only:)
    then show ?thesis unfolding u by simp
  qed
  have 4: "goroutines s' = goroutines s @ map (\<lambda>pl. (Listener pl, Input pl)) ?new"
    using go by simp
  have 5: "waitGroup b = waitGroup broker + int (length (q # paths))" using wg by simp
  have 6: "chans s' = chans s @ replicate (length (q # paths)) \<lparr>received = [], closed = False\<rparr>"
    using ch by simp
  have 0: "LoadPlugins_loop env s broker lg (q # paths) = (Inr b, s')"
    using run by (simp only: LoadPlugins_loop_Cons_loaded[OF l])
  have 7: "readers s' = readers s" "headers s' = headers s" "http_Requests s' = http_Requests s"
          "http_Responses s' = http_Responses s" "Requests s' = Requests s"
          "Responses s' = Responses s" "Results s' = Results s"
    using fr by simp_all
  show ?case
    by (intro exI conjI) (rule 0 1 2 3 4 5 6 7)+
qed

section \<open>The scenario, evaluated\<close>

lemmas exec_defs = SendResult_def Request_CloneBody_def Response_CloneBody_def
  http_Request_Clone_def Header_Clone_def ioutil_ReadAll_def NewReader_def chan_send_def
  deref_def upd_def Let_def zero_Response_def copy_def context_Background_def

lemma ex_SendResult: "SendResult ex_store ex_broker (Some 0) = (Inr (), ex_sent)"
  by (simp add: exec_defs ex_store_def ex_broker_def ex_sent_def)

lemma ex_listen_chans: "chans (ex_listen l v s) = chans s"
  by (simp add: ex_listen_def split: option.splits)

lemma ex_first_dispatch:
  "SendResult_loop_with ex_listen ex_store (Some 0) (take 1 (plugins ex_broker)) = (Inr (), ex_mid)"
  by (simp add: exec_defs ex_store_def ex_broker_def ex_mid_def ex_listen_def)

lemma ex_second_clone:
  "fst (Request_CloneBody ex_mid (Some 1) context_Background) = Inl (Error ''read error'')"
  by (simp add: exec_defs ex_mid_def)

section \<open>Claims\<close>

text \<open>
  C1 (as amended). For every broker with registered plugins and every Result whose
  bodies clone, the Result that the broker shares with the producer refers, after
  \<open>SendResult\<close>, to the pair of clones made for the last plugin. That pair is cloned
  from the pair the Result referred to after the dispatch to the plugins before it,
  it replaces that pair in the Result, and neither of its members is the Request or
  the Response that the Result referred to on entry: nothing restores the original
  pair.
\<close>

theorem SendResult_keeps_last_clone:
  assumes "SendResult s p (Some a) = (Inr u, s')" and "plugins p \<noteq> []"
  shows "\<exists>s1 req s2 resp s3.
           SendResult_loop s (Some a) (butlast (plugins p)) = (Inr (), s1) \<and>
           a < length (Results s1) \<and>
           Request_CloneBody s1 (Request (Results s1 ! a)) context_Background = (Inr req, s2) \<and>
           Response_CloneBody s2 (Response (Results s1 ! a)) = (Inr resp, s3) \<and>
           deref (Results s') (Some a) =
             Some ((Results s1 ! a)\<lparr>Request := req, Response := resp\<rparr>) \<and>
           req \<noteq> Request (Results s ! a) \<and> resp \<noteq> Response (Results s ! a)"
proof -
  let ?bl = "butlast (plugins p)" and ?l = "last (plugins p)"
  have split: "plugins p = ?bl @ [?l]" using assms(2) by simp
  have whole: "SendResult_loop s (Some a) (?bl @ [?l]) = (Inr u, s')"
    using assms(1) split by (simp add: SendResult_def)
  obtain o1 s1 where bl: "SendResult_loop s (Some a) ?bl = (o1, s1)"
    by (cases "SendResult_loop s (Some a) ?bl")
  from whole bl have o1: "o1 = Inr ()" and
    lst: "SendResult_loop s1 (Some a) [?l] = (Inr u, s')"
    by (auto simp: SendResult_loop_append split: sum.splits)
  from SendResult_loop_Cons_Inr[OF lst] obtain req s2 resp s3 s4 where
    a1: "a < length (Results s1)" and
    rq: "Request_CloneBody s1 (Request (Results s1 ! a)) context_Background = (Inr req, s2)" and
    rs: "Response_CloneBody s2 (Response (Results s1 ! a)) = (Inr resp, s3)" and
    cs: "chan_send (s3\<lparr>Results := (Results s1)[a := (Results s1 ! a)\<lparr>Request := req, Response := resp\<rparr>]\<rparr>)
           (Input ?l) (Some a) = (Inr (), s4)" and
    fin: "SendResult_loop s4 (Some a) [] = (Inr u, s')"
    by blast
  from fin have s': "s' = s4" by simp
  have R': "Results s' = (Results s1)[a := (Results s1 ! a)\<lparr>Request := req, Response := resp\<rparr>]"
    using chan_send_frame[OF cs] s' by simp
  have final: "deref (Results s') (Some a) =
                 Some ((Results s1 ! a)\<lparr>Request := req, Response := resp\<rparr>)"
    using R' a1 by (simp add: deref_def)
  from SendResult_loop_Inr_valid[OF whole] obtain x y where
    x: "Request (Results s ! a) = Some x" "x < length (Requests s)" and
    y: "Response (Results s ! a) = Some y" "y < length (Responses s)"
    by auto
  have m: "length (Requests s) \<le> length (Requests s1)" "length (Responses s) \<le> length (Responses s1)"
    using SendResult_loop_mono[OF bl] by simp_all
  have "req = Some (length (Requests s1))" using Request_CloneBody_Inr[OF rq] by simp
  with x m have n1: "req \<noteq> Request (Results s ! a)" by auto
  have "resp = Some (length (Responses s2))" using Response_CloneBody_Inr[OF rs] by simp
  with Request_CloneBody_frame[OF rq] have "resp = Some (length (Responses s1))" by simp
  with y m have n2: "resp \<noteq> Response (Results s ! a)" by auto
  show ?thesis using bl o1 a1 rq rs final n1 n2 by blast
qed

theorem SendResult_keeps_last_clone_witness:
  "SendResult ex_store ex_broker (Some 0) = (Inr (), ex_sent)
   \<and> plugins ex_broker \<noteq> []
   \<and> Request (Results ex_sent ! 0) \<noteq> Request (Results ex_store ! 0)
   \<and> Response (Results ex_sent ! 0) \<noteq> Response (Results ex_store ! 0)"
proof -
  have ne: "plugins ex_broker \<noteq> []" by (simp add: ex_broker_def)
  from SendResult_keeps_last_clone[OF ex_SendResult ne] have
    "\<exists>x. deref (Results ex_sent) (Some 0) = Some x \<and>
         Request x \<noteq> Request (Results ex_store ! 0) \<and>
         Response x \<noteq> Response (Results ex_store ! 0)"
    by auto
  then have n: "Request (Results ex_sent ! 0) \<noteq> Request (Results ex_store ! 0)"
               "Response (Results ex_sent ! 0) \<noteq> Response (Results ex_store ! 0)"
    by (auto simp: deref_Some_iff)
  with ex_SendResult ne show ?thesis by simp
qed

text \<open>
  C1 as stated fails: with the two plugins of the scenario, the Result refers to
  wrapper 0 of each heap before the call and to wrapper 2, the last clone, after it.
\<close>

theorem SendResult_restores_original_counterexample:
  "SendResult ex_store ex_broker (Some 0) = (Inr (), ex_sent) \<and>
   Request (Results ex_store ! 0) = Some 0 \<and>
   Response (Results ex_store ! 0) = Some 0 \<and>
   Request (Results ex_sent ! 0) = Some 2 \<and>
   Response (Results ex_sent ! 0) = Some 2"
  using ex_SendResult by (simp add: ex_store_def ex_sent_def)



text \<open>
  C7. For every Result in the store and every sequence of \<open>SendResult\<close> calls,
  whatever they return, the fields Payload, Location, FieldName and TimeElapsed of the
  Result are as before; the broker writes only the Request and Response fields.
\<close>

theorem SendResult_all_metadata:
  "map metadata (Results (SendResult_all s p results)) = map metadata (Results s)"
proof (induction results arbitrary: s)
  case Nil
  show ?case by simp
next
  case (Cons r rs)
  have "map metadata (Results (snd (SendResult s p r))) = map metadata (Results s)"
    using SendResult_loop_metadata[of s r "plugins p" "fst (SendResult s p r)" "snd (SendResult s p r)"]
    by (simp add: SendResult_def)
  with Cons.IH[of "snd (SendResult s p r)"] show ?case by simp
qed

text \<open>
  C8. A broker without plugins: \<open>SendResult\<close> returns nil and leaves the store as it
  is (nothing is cloned, nothing is sent), \<open>SignalDone\<close> closes no channel and does not
  panic, and \<open>Wait\<close> returns. The counter of the wait group counts workers of
  registered plugins that have not returned, so it lies between zero and the number
  of plugins.
\<close>

theorem zero_plugins:
  assumes "plugins p = []" and "0 \<le> waitGroup p" and "waitGroup p \<le> int (length (plugins p))"
  shows "SendResult s p result = (Inr (), s) \<and> SignalDone s p = (Inr (), s) \<and> Wait p = Inr ()"
  using assms by (simp add: SendResult_def SignalDone_def Wait_def)

theorem zero_plugins_witness:
  "fst (LoadPlugins ex_env ex_store 0 []) = Inr \<lparr>plugins = [], waitGroup = 0\<rparr> \<and>
   plugins \<lparr>plugins = [], waitGroup = 0\<rparr> = [] \<and>
   (0::int) \<le> waitGroup \<lparr>plugins = [], waitGroup = 0\<rparr> \<and>
   SendResult ex_store \<lparr>plugins = [], waitGroup = 0\<rparr> (Some 0) = (Inr (), ex_store) \<and>
   SignalDone ex_store \<lparr>plugins = [], waitGroup = 0\<rparr> = (Inr (), ex_store) \<and>
   Wait \<lparr>plugins = [], waitGroup = 0\<rparr> = Inr ()"
  using zero_plugins[of "\<lparr>plugins = [], waitGroup = 0\<rparr>" ex_store "Some 0"]
  by (simp add: LoadPlugins_def)

text \<open>
  C4. The workers of the plugins run while \<open>SendResult\<close> dispatches: \<open>listen\<close> is what
  a worker does to the store with the pointer it is handed, and a worker writes no
  channel, since it holds only the receiving end of its own. Let the dispatch to the
  plugins before index i have gone through, and let the clone of the Request or of the
  Response made for plugin i fail with an error. Then \<open>SendResult\<close> returns that error,
  every plugin before i has been handed the Result (once more than before the call),
  and the plugins from i on have been handed nothing. The plugins have each their own
  channel, as \<open>LoadPlugins\<close> makes them. With workers that leave the store alone the
  loop is \<open>SendResult_loop\<close>, and a clone can then fail for the first plugin only.
\<close>

theorem SendResult_clone_failure:
  assumes i: "i < length (plugins p)"
      and ro: "\<forall>l v s. chans (listen l v s) = chans s"
      and pre: "SendResult_loop_with listen s result (take i (plugins p)) = (Inr (), si)"
      and res: "deref (Results si) result = Some res"
      and fail: "Request_CloneBody si (Request res) context_Background = (Inl (Error msg), sf) \<or>
                 (\<exists>req sm. Request_CloneBody si (Request res) context_Background = (Inr req, sm) \<and>
                            Response_CloneBody sm (Response res) = (Inl (Error msg), sf))"
      and dist: "distinct (map Input (plugins p))"
  shows "SendResult_with listen s p result = (Inl (Error msg), sf) \<and>
         (\<forall>j<i. delivered sf (plugins p ! j) = delivered s (plugins p ! j) @ [result]) \<and>
         (\<forall>j. i \<le> j \<and> j < length (plugins p) \<longrightarrow>
              delivered sf (plugins p ! j) = delivered s (plugins p ! j))"
proof -
  let ?ps = "plugins p"
  have split: "?ps = take i ?ps @ (?ps ! i) # drop (Suc i) ?ps"
    using i by (simp add: id_take_nth_drop)
  have one: "SendResult_loop si result [?ps ! i] = (Inl (Error msg), sf)"
    using res fail by auto
  have step: "SendResult_loop_with listen si result ((?ps ! i) # drop (Suc i) ?ps)
                = (Inl (Error msg), sf)"
    unfolding SendResult_loop_with.simps using one by simp
  have "SendResult_loop_with listen s result (take i ?ps @ (?ps ! i) # drop (Suc i) ?ps)
          = (Inl (Error msg), sf)"
    using pre step by (simp add: SendResult_loop_with_append)
  with split have ret: "SendResult_with listen s p result = (Inl (Error msg), sf)"
    by (simp add: SendResult_with_def)
  have cf: "chans sf = chans si"
    using fail Request_CloneBody_frame Response_CloneBody_frame by (metis (no_types))
  have dt: "distinct (map Input (take i ?ps))"
    using dist by (metis distinct_take take_map)
  have del: "delivered sf pl = (if Input pl \<in> Input ` set (take i ?ps)
                                then delivered s pl @ [result] else delivered s pl)" for pl
    using SendResult_loop_with_delivered[OF pre dt ro, of pl] delivered_cong[OF cf, of pl] by simp
  have before: "delivered sf (?ps ! j) = delivered s (?ps ! j) @ [result]" if "j < i" for j
  proof -
    from that i have "?ps ! j \<in> set (take i ?ps)"
      by (auto simp: in_set_conv_nth intro!: exI[of _ j])
    then show ?thesis using del[of "?ps ! j"] by auto
  qed
  have after: "delivered sf (?ps ! j) = delivered s (?ps ! j)" if "i \<le> j" "j < length ?ps" for j
  proof -
    have "Input (?ps ! j) \<notin> Input ` set (take i ?ps)"
    proof
      assume "Input (?ps ! j) \<in> Input ` set (take i ?ps)"
      then obtain k where k: "k < i" "Input (?ps ! k) = Input (?ps ! j)"
        using i by (auto simp: in_set_conv_nth)
      from dist have "\<forall>a<length ?ps. \<forall>b<length ?ps. a \<noteq> b \<longrightarrow> Input (?ps ! a) \<noteq> Input (?ps ! b)"
        by (simp add: distinct_conv_nth)
      with k that i have "k = j" by (metis less_trans)
      with k that show False by simp
    qed
    then show ?thesis using del[of "?ps ! j"] by simp
  qed
  from ret before after show ?thesis by blast
qed

theorem SendResult_clone_failure_witness:
  "1 < length (plugins ex_broker) \<and>
   SendResult_loop_with ex_listen ex_store (Some 0) (take 1 (plugins ex_broker)) = (Inr (), ex_mid) \<and>
   deref (Results ex_mid) (Some 0) = Some (Results ex_mid ! 0) \<and>
   Request_CloneBody ex_mid (Request (Results ex_mid ! 0)) context_Background =
     (Inl (Error ''read error''), snd (Request_CloneBody ex_mid (Some 1) context_Background)) \<and>
   distinct (map Input (plugins ex_broker)) \<and>
   SendResult_with ex_listen ex_store ex_broker (Some 0) =
     (Inl (Error ''read error''), snd (Request_CloneBody ex_mid (Some 1) context_Background)) \<and>
   delivered (snd (Request_CloneBody ex_mid (Some 1) context_Background)) (plugins ex_broker ! 0)
     = delivered ex_store (plugins ex_broker ! 0) @ [Some 0] \<and>
   delivered (snd (Request_CloneBody ex_mid (Some 1) context_Background)) (plugins ex_broker ! 1)
     = delivered ex_store (plugins ex_broker ! 1)"
proof -
  let ?sf = "snd (Request_CloneBody ex_mid (Some 1) context_Background)"
  have h1: "1 < length (plugins ex_broker)" by (simp add: ex_broker_def)
  have ro: "\<forall>l v s. chans (ex_listen l v s) = chans s" by (simp add: ex_listen_chans)
  have h3: "deref (Results ex_mid) (Some 0) = Some (Results ex_mid ! 0)"
    by (simp add: deref_def ex_mid_def)
  have rq: "Request (Results ex_mid ! 0) = Some 1" by (simp add: ex_mid_def)
  have h4: "Request_CloneBody ex_mid (Request (Results ex_mid ! 0)) context_Background
              = (Inl (Error ''read error''), ?sf)"
    using ex_second_clone by (simp add: rq prod_eq_iff)
  have h5: "distinct (map Input (plugins ex_broker))" by (simp add: ex_broker_def)
  have l: "(0::nat) < 1" "(1::nat) \<le> 1 \<and> 1 < length (plugins ex_broker)"
    by (simp_all add: ex_broker_def)
  from SendResult_clone_failure[OF h1 ro ex_first_dispatch h3 disjI1[OF h4] h5] l
  have "SendResult_with ex_listen ex_store ex_broker (Some 0) = (Inl (Error ''read error''), ?sf)"
       "delivered ?sf (plugins ex_broker ! 0) = delivered ex_store (plugins ex_broker ! 0) @ [Some 0]"
       "delivered ?sf (plugins ex_broker ! 1) = delivered ex_store (plugins ex_broker ! 1)"
    by blast+
  with h1 ex_first_dispatch h3 h4 h5 show ?thesis by blast
qed

text \<open>
  C10. A Request whose Body is nil: \<open>CloneBody\<close> returns a clone and no error, the
  heap of readers is as it was (nothing is read, nothing replaced), every request
  that existed keeps its value, and the clone is a new request whose Body is nil.
  A Response has no such branch: on a nil Body \<open>CloneBody\<close> panics in \<^verbatim>\<open>ReadAll\<close>, and
  on a Body that is a reader it does not panic.
\<close>

theorem CloneBody_nil_body:
  "(deref (Requests s) r = Some hr \<and> deref (http_Requests s) hr = Some h \<and>
    req_Body h = None \<and> c \<noteq> None \<longrightarrow>
      (\<exists>s' g. Request_CloneBody s r c = (Inr (Some (length (Requests s))), s') \<and>
         readers s' = readers s \<and>
         http_Requests s' = http_Requests s @ [g] \<and> req_Body g = None \<and>
         Requests s' = Requests s @ [Some (length (http_Requests s))] \<and>
         (\<exists>t. headers s' = headers s @ t))) \<and>
   (deref (Responses s) r' = Some hr' \<and> deref (http_Responses s) hr' = Some h' \<longrightarrow>
      (resp_Body h' = None \<longrightarrow>
         (\<exists>s'. Response_CloneBody s r' = (Inl (Panic ''nil pointer dereference''), s'))) \<and>
      (deref (readers s) (resp_Body h') \<noteq> None \<longrightarrow>
         (\<forall>m. fst (Response_CloneBody s r') \<noteq> Inl (Panic m))))"
proof (intro conjI impI)
  assume a: "deref (Requests s) r = Some hr \<and> deref (http_Requests s) hr = Some h \<and>
             req_Body h = None \<and> c \<noteq> None"
  then obtain cx where cx: "c = Some cx" by auto
  from a show "\<exists>s' g. Request_CloneBody s r c = (Inr (Some (length (Requests s))), s') \<and>
         readers s' = readers s \<and>
         http_Requests s' = http_Requests s @ [g] \<and> req_Body g = None \<and>
         Requests s' = Requests s @ [Some (length (http_Requests s))] \<and>
         (\<exists>t. headers s' = headers s @ t)"
    using clone_hdr_props(2)[of "headers s" "req_Header h"]
          clone_hdr_props(2)[of "snd (clone_hdr (headers s) (req_Header h))" "req_Trailer h"]
    by (auto simp add: Request_CloneBody_def http_Request_Clone_def Header_Clone_eq cx Let_def
          deref_append_new)
next
  assume a: "deref (Responses s) r' = Some hr' \<and> deref (http_Responses s) hr' = Some h'"
     and n: "resp_Body h' = None"
  then have "deref (http_Responses s @ [zero_Response]) hr' = Some h'"
    by (simp add: deref_append_old)
  with a n show "\<exists>s'. Response_CloneBody s r' = (Inl (Panic ''nil pointer dereference''), s')"
    by (simp add: Response_CloneBody_def Header_Clone_eq Let_def ioutil_ReadAll_def)
next
  assume a: "deref (Responses s) r' = Some hr' \<and> deref (http_Responses s) hr' = Some h'"
     and n: "deref (readers s) (resp_Body h') \<noteq> None"
  then have h1: "deref (http_Responses s @ [zero_Response]) hr' = Some h'"
    by (simp add: deref_append_old)
  from n obtain rd where "deref (readers s) (resp_Body h') = Some rd" by auto
  with a h1 show "\<forall>m. fst (Response_CloneBody s r') \<noteq> Inl (Panic m)"
    by (simp add: Response_CloneBody_def Header_Clone_eq Let_def ioutil_ReadAll_def
          NewReader_def split: option.splits)
qed


theorem CloneBody_nil_body_witness:
  "deref (Requests ex_store_nobody) (Some 0) = Some (Some 0) \<and>
   req_Body (http_Requests ex_store_nobody ! 0) = None \<and>
   context_Background \<noteq> None \<and>
   Request_CloneBody ex_store_nobody (Some 0) context_Background =
     (Inr (Some 1), snd (Request_CloneBody ex_store_nobody (Some 0) context_Background)) \<and>
   readers (snd (Request_CloneBody ex_store_nobody (Some 0) context_Background))
     = readers ex_store_nobody \<and>
   resp_Body (http_Responses ex_store_nobody ! 0) = None \<and>
   fst (Response_CloneBody ex_store_nobody (Some 0)) = Inl (Panic ''nil pointer dereference'') \<and>
   deref (readers ex_store) (resp_Body (http_Responses ex_store ! 0)) \<noteq> None \<and>
   fst (Response_CloneBody ex_store (Some 0)) \<noteq> Inl (Panic ''nil pointer dereference'')"
proof -
  have a1: "deref (Requests ex_store_nobody) (Some 0) = Some (Some 0)"
    by (simp add: ex_store_nobody_def ex_store_def deref_def)
  have a2: "deref (http_Requests ex_store_nobody) (Some 0) = Some (http_Requests ex_store_nobody ! 0)"
    by (simp add: ex_store_nobody_def ex_store_def deref_def)
  have a3: "req_Body (http_Requests ex_store_nobody ! 0) = None"
    by (simp add: ex_store_nobody_def ex_store_def)
  have a4: "context_Background \<noteq> None" by (simp add: context_Background_def)
  have b1: "deref (Responses ex_store_nobody) (Some 0) = Some (Some 0)"
    by (simp add: ex_store_nobody_def ex_store_def deref_def)
  have b2: "deref (http_Responses ex_store_nobody) (Some 0) = Some (http_Responses ex_store_nobody ! 0)"
    by (simp add: ex_store_nobody_def ex_store_def deref_def)
  have b3: "resp_Body (http_Responses ex_store_nobody ! 0) = None"
    by (simp add: ex_store_nobody_def ex_store_def)
  have c1: "deref (Responses ex_store) (Some 0) = Some (Some 0)"
    by (simp add: ex_store_def deref_def)
  have c2: "deref (http_Responses ex_store) (Some 0) = Some (http_Responses ex_store ! 0)"
    by (simp add: ex_store_def deref_def)
  have c3: "deref (readers ex_store) (resp_Body (http_Responses ex_store ! 0)) \<noteq> None"
    by (simp add: ex_store_def deref_def)
  have n: "length (Requests ex_store_nobody) = 1"
    by (simp add: ex_store_nobody_def ex_store_def)
  from CloneBody_nil_body[of ex_store_nobody "Some 0" "Some 0" "http_Requests ex_store_nobody ! 0"
         context_Background "Some 0" "Some 0" "http_Responses ex_store_nobody ! 0"]
       a1 a2 a3 a4 b1 b2 b3 n
  have r1: "Request_CloneBody ex_store_nobody (Some 0) context_Background =
              (Inr (Some 1), snd (Request_CloneBody ex_store_nobody (Some 0) context_Background))"
       "readers (snd (Request_CloneBody ex_store_nobody (Some 0) context_Background))
          = readers ex_store_nobody"
       "fst (Response_CloneBody ex_store_nobody (Some 0)) = Inl (Panic ''nil pointer dereference'')"
    by auto
  from CloneBody_nil_body[of ex_store r c hr h "Some 0" "Some 0" "http_Responses ex_store ! 0"]
       c1 c2 c3
  have r2: "fst (Response_CloneBody ex_store (Some 0)) \<noteq> Inl (Panic ''nil pointer dereference'')"
    by blast
  from a1 a3 a4 b3 c3 r1 r2 show ?thesis by blast
qed

text \<open>
  C3 on the scenario: the response has the transfer encoding \<open>chunked\<close>; its clone,
  the response 1 that wrapper 1 embeds, has none. The destination of the \<^verbatim>\<open>copy\<close> is
  the nil slice of the new response, so no element is copied.
\<close>

theorem Response_CloneBody_drops_TransferEncoding:
  "fst (Response_CloneBody ex_store (Some 0)) = Inr (Some 1) \<and>
   Responses (snd (Response_CloneBody ex_store (Some 0))) ! 1 = Some 1 \<and>
   resp_TransferEncoding (http_Responses ex_store ! 0) = [''chunked''] \<and>
   resp_TransferEncoding (http_Responses (snd (Response_CloneBody ex_store (Some 0))) ! 1) = [] \<and>
   resp_Status (http_Responses (snd (Response_CloneBody ex_store (Some 0))) ! 1) = ''200 OK''"
  by (simp add: exec_defs ex_store_def)

text \<open>
  C2 on the scenario. Both plugins are handed the same pointer, the producer's own
  \<open>result\<close>. The body reached through it has the original bytes, but a header that one
  plugin sets through the pointer it was handed is seen through the pointer the other
  plugin was handed, and by the producer.
\<close>

theorem SendResult_shares_Result:
  "SendResult ex_store ex_broker (Some 0) = (Inr (), ex_sent) \<and>
   delivered ex_sent (plugins ex_broker ! 0) = [Some 0] \<and>
   delivered ex_sent (plugins ex_broker ! 1) = [Some 0] \<and>
   Request_body ex_sent (Request (Results ex_sent ! 0)) = Some (readable [0x61, 0x62, 0x63]) \<and>
   Header_Get ex_sent (Result_Request_Header ex_sent (Some 0)) ''X-Seen'' = None \<and>
   Header_Get
     (Header_Set ex_sent
        (Result_Request_Header ex_sent (hd (delivered ex_sent (plugins ex_broker ! 0))))
        ''X-Seen'' ''1'')
     (Result_Request_Header ex_sent (hd (delivered ex_sent (plugins ex_broker ! 1))))
     ''X-Seen'' = Some [''1'']"
  using ex_SendResult
  by (simp add: ex_sent_def ex_broker_def delivered_def Request_body_def deref_def upd_def
        readable_def Header_Get_def Header_Set_def Result_Request_Header_def)

text \<open>
  C5. If some path fails to load (its module cannot be opened, lacks \<^verbatim>\<open>New\<close>, or its
  factory returns an error) and no module exports \<^verbatim>\<open>New\<close> with another type, then
  \<open>LoadPlugins\<close> returns an error and no broker. Whenever some path does not load, for
  whatever reason, no broker comes back. If every path loads, the broker holds one
  plugin per path, in the order of the paths, each with the listener its factory
  returned and a channel of its own, new and open; a worker has been started for each
  plugin on its channel, and the wait group counts them.
\<close>

theorem LoadPlugins_all_or_nothing:
  "((\<exists>q\<in>set paths. load_fails env lg q) \<and> (\<forall>q\<in>set paths. \<not> ill_typed env q) \<longrightarrow>
      (\<exists>msg s'. LoadPlugins env s lg paths = (Inl (Error msg), s'))) \<and>
   ((\<exists>q\<in>set paths. loaded env lg q = None) \<longrightarrow>
      (\<exists>e s'. LoadPlugins env s lg paths = (Inl e, s'))) \<and>
   ((\<forall>q\<in>set paths. loaded env lg q \<noteq> None) \<longrightarrow>
      (\<exists>b s'. LoadPlugins env s lg paths = (Inr b, s') \<and>
         map (Some \<circ> Listener) (plugins b) = map (loaded env lg) paths \<and>
         map Input (plugins b) = map Some [length (chans s)..<length (chans s) + length paths] \<and>
         chans s' = chans s @ replicate (length paths) \<lparr>received = [], closed = False\<rparr> \<and>
         goroutines s' = goroutines s @ map (\<lambda>pl. (Listener pl, Input pl)) (plugins b) \<and>
         waitGroup b = int (length paths)))"
proof (intro conjI impI)
  assume a: "(\<exists>q\<in>set paths. load_fails env lg q) \<and> (\<forall>q\<in>set paths. \<not> ill_typed env q)"
  then have "\<exists>q\<in>set paths. loaded env lg q = None" by (auto simp: loaded_None_iff)
  from split_list_first_prop[OF this] obtain pre path post where
    sp: "paths = pre @ path # post" and n: "loaded env lg path = None" and
    pre: "\<forall>q\<in>set pre. loaded env lg q \<noteq> None" by blast
  from a sp n have "load_fails env lg path" by (auto simp: loaded_None_iff)
  from LoadPlugins_loop_fails[OF pre this] sp
  show "\<exists>msg s'. LoadPlugins env s lg paths = (Inl (Error msg), s')"
    by (simp add: LoadPlugins_def)
next
  assume "\<exists>q\<in>set paths. loaded env lg q = None"
  from LoadPlugins_loop_no_broker[OF this]
  show "\<exists>e s'. LoadPlugins env s lg paths = (Inl e, s')" by (simp add: LoadPlugins_def)
next
  assume "\<forall>q\<in>set paths. loaded env lg q \<noteq> None"
  from LoadPlugins_loop_loaded[OF this, of s "\<lparr>plugins = [], waitGroup = 0\<rparr>"]
  show "\<exists>b s'. LoadPlugins env s lg paths = (Inr b, s') \<and>
         map (Some \<circ> Listener) (plugins b) = map (loaded env lg) paths \<and>
         map Input (plugins b) = map Some [length (chans s)..<length (chans s) + length paths] \<and>
         chans s' = chans s @ replicate (length paths) \<lparr>received = [], closed = False\<rparr> \<and>
         goroutines s' = goroutines s @ map (\<lambda>pl. (Listener pl, Input pl)) (plugins b) \<and>
         waitGroup b = int (length paths)"
    unfolding LoadPlugins_def by (elim exE conjE) (intro exI conjI, simp_all)
qed


theorem LoadPlugins_all_or_nothing_witness:
  "load_fails ex_env 0 ''b.so'' \<and>
   \<not> ill_typed ex_env ''a.so'' \<and> \<not> ill_typed ex_env ''b.so'' \<and>
   isl (fst (LoadPlugins ex_env ex_store 0 [''a.so'', ''b.so''])) \<and>
   loaded ex_env 0 ''a.so'' = Some 7 \<and> loaded ex_env 0 ''c.so'' = Some 9 \<and>
   map (Some \<circ> Listener) (plugins (projr (fst (LoadPlugins ex_env ex_store 0 [''a.so'', ''c.so'']))))
     = [Some 7, Some 9] \<and>
   map Input (plugins (projr (fst (LoadPlugins ex_env ex_store 0 [''a.so'', ''c.so'']))))
     = [Some 2, Some 3] \<and>
   waitGroup (projr (fst (LoadPlugins ex_env ex_store 0 [''a.so'', ''c.so'']))) = 2"
proof -
  have f: "load_fails ex_env 0 ''b.so''"
    by (simp add: load_fails_def ex_env_def)
  have t: "\<not> ill_typed ex_env ''a.so''" "\<not> ill_typed ex_env ''b.so''"
    by (simp_all add: ill_typed_def ex_env_def)
  have l: "loaded ex_env 0 ''a.so'' = Some 7" "loaded ex_env 0 ''c.so'' = Some 9"
    by (simp_all add: loaded_def ex_env_def)
  have n: "length (chans ex_store) = 2" by (simp add: ex_store_def)
  from LoadPlugins_all_or_nothing[of "[''a.so'', ''b.so'']" ex_env 0 ex_store] f t
  obtain msg s' where "LoadPlugins ex_env ex_store 0 [''a.so'', ''b.so''] = (Inl (Error msg), s')"
    by auto
  then have r1: "isl (fst (LoadPlugins ex_env ex_store 0 [''a.so'', ''b.so'']))" by simp
  from LoadPlugins_all_or_nothing[of "[''a.so'', ''c.so'']" ex_env 0 ex_store] l
  obtain b s'' where
    "LoadPlugins ex_env ex_store 0 [''a.so'', ''c.so''] = (Inr b, s'')"
    "map (Some \<circ> Listener) (plugins b) = map (loaded ex_env 0) [''a.so'', ''c.so'']"
    "map Input (plugins b) = map Some [length (chans ex_store)..<length (chans ex_store) + 2]"
    "waitGroup b = 2"
    by auto
  with l n have r2:
    "map (Some \<circ> Listener) (plugins (projr (fst (LoadPlugins ex_env ex_store 0 [''a.so'', ''c.so'']))))
       = [Some 7, Some 9]"
    "map Input (plugins (projr (fst (LoadPlugins ex_env ex_store 0 [''a.so'', ''c.so'']))))
       = [Some 2, Some 3]"
    "waitGroup (projr (fst (LoadPlugins ex_env ex_store 0 [''a.so'', ''c.so'']))) = 2"
    by (simp_all add: upt_rec)
  from f t l r1 r2 show ?thesis by blast
qed

end
